theory Spec2Isabelle
  imports Main
begin

section \<open>Python values used by the service\<close>

text \<open>
  A Python \<open>str\<close> is a sequence of code points. It is modelled as \<open>string\<close>, each
  \<open>char\<close> read as one code point in the range U+0000 to U+00FF, so \<open>length\<close> is
  Python's \<open>len\<close>. The character classes below are the ones of \<open>str.isalpha\<close>,
  \<open>str.isdigit\<close> and \<open>str.isspace\<close> on that range.
\<close>

definition in_range :: "char \<Rightarrow> char \<Rightarrow> char \<Rightarrow> bool" where
  "in_range lo hi c = ((of_char lo :: nat) \<le> of_char c \<and> (of_char c :: nat) \<le> of_char hi)"

definition ascii_letter :: "char \<Rightarrow> bool" where
  "ascii_letter c = (in_range CHR ''a'' CHR ''z'' c \<or> in_range CHR ''A'' CHR ''Z'' c)"

definition ascii_digit :: "char \<Rightarrow> bool" where
  "ascii_digit c = in_range CHR ''0'' CHR ''9'' c"

definition isalpha :: "char \<Rightarrow> bool" where
  "isalpha c = (ascii_letter c \<or> c = CHR 0xAA \<or> c = CHR 0xB5 \<or> c = CHR 0xBA
     \<or> in_range (CHR 0xC0) (CHR 0xD6) c \<or> in_range (CHR 0xD8) (CHR 0xF6) c
     \<or> in_range (CHR 0xF8) (CHR 0xFF) c)"

definition isdigit :: "char \<Rightarrow> bool" where
  "isdigit c = (ascii_digit c \<or> c = CHR 0xB2 \<or> c = CHR 0xB3 \<or> c = CHR 0xB9)"

definition isspace :: "char \<Rightarrow> bool" where
  "isspace c = (in_range (CHR 0x09) (CHR 0x0D) c \<or> in_range (CHR 0x1C) (CHR 0x1F) c
     \<or> c = CHR '' '' \<or> c = CHR 0x85 \<or> c = CHR 0xA0)"

text \<open>\<open>s.isdigit()\<close>: every character is a digit and there is at least one.\<close>

definition str_isdigit :: "string \<Rightarrow> bool" where
  "str_isdigit s = (s \<noteq> [] \<and> list_all isdigit s)"

text \<open>\<open>str(n)\<close> of a non-negative integer: its decimal digits.\<close>

definition digit_char :: "nat \<Rightarrow> char" where
  "digit_char d = ''0123456789'' ! (d mod 10)"

fun str_nat :: "nat \<Rightarrow> string" where
  "str_nat n = (if n < 10 then [digit_char n] else str_nat (n div 10) @ [digit_char (n mod 10)])"

declare str_nat.simps [simp del]

text \<open>
  The format specification \<open>04d\<close>: decimal, sign-aware zero padding to width 4
  (\<open>f"{7:04d}"\<close> is \<open>0007\<close>, \<open>f"{-7:04d}"\<close> is \<open>-007\<close>, \<open>f"{12345:04d}"\<close> is \<open>12345\<close>).
\<close>

definition zero_pad :: "nat \<Rightarrow> string \<Rightarrow> string" where
  "zero_pad k s = replicate (k - length s) CHR ''0'' @ s"

definition format_04d :: "int \<Rightarrow> string" where
  "format_04d n = (if n < 0 then CHR ''-'' # zero_pad 3 (str_nat (nat (- n)))
                   else zero_pad 4 (str_nat (nat n)))"

text \<open>
  \<open>int(s)\<close> on a string that passed \<open>s.isdigit()\<close>: the decimal value when every
  character is one of \<open>0\<close> to \<open>9\<close>; the superscript digits that \<open>isdigit\<close> also accepts
  make \<open>int\<close> raise ValueError (\<open>None\<close>).
\<close>

definition digit_val :: "char \<Rightarrow> nat" where
  "digit_val c = of_char c - of_char CHR ''0''"

definition py_int :: "string \<Rightarrow> nat option" where
  "py_int s = (if s \<noteq> [] \<and> list_all ascii_digit s
               then Some (foldl (\<lambda>a c. 10 * a + digit_val c) 0 s) else None)"

text \<open>\<open>s.split()\<close>: the maximal runs of non-whitespace characters, in order.\<close>

fun split_acc :: "string \<Rightarrow> string \<Rightarrow> string list" where
  "split_acc [] w = (if w = [] then [] else [w])"
| "split_acc (c # cs) w =
     (if isspace c then (if w = [] then split_acc cs [] else w # split_acc cs [])
      else split_acc cs (w @ [c]))"

definition str_split :: "string \<Rightarrow> string list" where
  "str_split s = split_acc s []"

text \<open>
  \<open>random.randint(a, b)\<close> returns an integer \<open>N\<close> with \<open>a \<le> N \<le> b\<close>, each of them
  possible. The generator's draw is the argument \<open>seed\<close>.
\<close>

definition randint :: "int \<Rightarrow> int \<Rightarrow> nat \<Rightarrow> int" where
  "randint a b seed = a + int (seed mod nat (b - a + 1))"

text \<open>
  A \<open>datetime\<close> is a point on the UTC time line, counted in microseconds (the
  resolution of Python's \<open>datetime\<close>); \<open>timedelta(minutes=m)\<close> is \<open>m\<close> times sixty
  million of them. \<open>utc_now()\<close>, \<open>datetime.utcnow()\<close> and SQL's \<open>NOW()\<close> read the
  clock; each reading is an argument of the function that takes it.
\<close>

type_synonym datetime = int

definition timedelta_minutes :: "int \<Rightarrow> int" where
  "timedelta_minutes m = m * 60000000"

definition timedelta_seconds :: "int \<Rightarrow> int" where
  "timedelta_seconds s = s * 1000000"

section \<open>Error codes and exceptions (schemas/common/errors.py, domain/exceptions)\<close>

datatype DmErrorCode =
    DM_REG_0001 | DM_REG_0002 | DM_REG_0003 | DM_REG_0004 | DM_REG_0005 | DM_REG_0006
  | DM_REG_0007 | DM_REG_0008 | DM_REG_0009 | DM_REG_0010 | DM_REG_0050

datatype ErrorType =
    INVALID_REQUEST | AUTHENTICATION_FAILED | SERVER_NOT_AVAILABLE | INVALID_REQUEST_ERROR
  | DUPLICATE_REQUEST | OBJECT_NOT_FOUND | VALIDATION_ERROR | PROCESSING_ERROR
  | UNAUTHORIZED_ERROR | UNEXPECTED_ERROR | EXPIRED_ERROR

text \<open>
  The exception classes. \<open>ValidationException\<close> carries the error code it was raised
  with (its status and type keep their defaults at every raise in the source);
  \<open>DatabaseException\<close> carries the fixed prefix of its message (the text of the wrapped
  exception that follows the prefix is left out).
\<close>

datatype error =
    ValidationException DmErrorCode
  | UserNotFoundException
  | EmailAlreadyExistsException
  | InvalidActivationCodeException
  | ActivationCodeExpiredException
  | UserAlreadyActivatedException
  | DatabaseException string
  | EmailServiceException
  | AuthenticationException

fun err_code :: "error \<Rightarrow> DmErrorCode" where
  "err_code (ValidationException c) = c"
| "err_code UserNotFoundException = DM_REG_0004"
| "err_code EmailAlreadyExistsException = DM_REG_0003"
| "err_code InvalidActivationCodeException = DM_REG_0005"
| "err_code ActivationCodeExpiredException = DM_REG_0006"
| "err_code UserAlreadyActivatedException = DM_REG_0007"
| "err_code (DatabaseException m) = DM_REG_0008"
| "err_code EmailServiceException = DM_REG_0009"
| "err_code AuthenticationException = DM_REG_0010"

fun err_status_code :: "error \<Rightarrow> nat" where
  "err_status_code (ValidationException c) = 422"
| "err_status_code UserNotFoundException = 404"
| "err_status_code EmailAlreadyExistsException = 409"
| "err_status_code InvalidActivationCodeException = 400"
| "err_status_code ActivationCodeExpiredException = 400"
| "err_status_code UserAlreadyActivatedException = 400"
| "err_status_code (DatabaseException m) = 500"
| "err_status_code EmailServiceException = 503"
| "err_status_code AuthenticationException = 401"

fun err_type :: "error \<Rightarrow> ErrorType" where
  "err_type (ValidationException c) = VALIDATION_ERROR"
| "err_type UserNotFoundException = OBJECT_NOT_FOUND"
| "err_type EmailAlreadyExistsException = DUPLICATE_REQUEST"
| "err_type InvalidActivationCodeException = VALIDATION_ERROR"
| "err_type ActivationCodeExpiredException = EXPIRED_ERROR"
| "err_type UserAlreadyActivatedException = PROCESSING_ERROR"
| "err_type (DatabaseException m) = SERVER_NOT_AVAILABLE"
| "err_type EmailServiceException = SERVER_NOT_AVAILABLE"
| "err_type AuthenticationException = UNAUTHORIZED_ERROR"

section \<open>Entities (domain/user/entities.py)\<close>

datatype UserStatus = PENDING | ACTIVE | INACTIVE | SUSPENDED

text \<open>
  A user id is the text of a UUID: \<open>uuid.uuid4()\<close> in the entity, a \<open>UUID\<close> column in
  the store. It is never the empty string, so \<open>not self.user_id\<close> holds exactly when no
  id was given.
\<close>

datatype uuid = UUID nat

record User =
  email :: string
  password_hash :: string
  status :: UserStatus
  user_id :: uuid
  created_at :: datetime
  updated_at :: datetime
  activated_at :: "datetime option"

record ActivationCode =
  user_id :: uuid
  code :: string
  expires_at :: datetime
  created_at :: datetime
  used_at :: "datetime option"
  is_used :: bool

text \<open>
  \<open>re.match(r'^[a-zA-Z0-9._%+-]+@[a-zA-Z0-9.-]+\.[a-zA-Z]{2,}$', email)\<close>. The local part
  cannot contain \<open>@\<close>, so it is the text before the first \<open>@\<close>; the last group
  cannot contain a dot, so it is the text after the last dot; \<open>$\<close> also matches just
  before one final newline.
\<close>

definition email_local_char :: "char \<Rightarrow> bool" where
  "email_local_char c = (ascii_letter c \<or> ascii_digit c \<or> c \<in> set ''._%+-'')"

definition email_domain_char :: "char \<Rightarrow> bool" where
  "email_domain_char c = (ascii_letter c \<or> ascii_digit c \<or> c \<in> set ''.-'')"

definition strip_final_newline :: "string \<Rightarrow> string" where
  "strip_final_newline s = (if s \<noteq> [] \<and> last s = CHR 0x0A then butlast s else s)"

definition email_regex_match :: "string \<Rightarrow> bool" where
  "email_regex_match s =
     (let local = takeWhile email_local_char s;
          rest = dropWhile email_local_char s
      in local \<noteq> [] \<and>
         (case rest of
            [] \<Rightarrow> False
          | c # r \<Rightarrow> c = CHR ''@'' \<and>
              (let r' = strip_final_newline r;
                   tld = rev (takeWhile (\<lambda>x. x \<noteq> CHR ''.'') (rev r'));
                   dom_dot = rev (dropWhile (\<lambda>x. x \<noteq> CHR ''.'') (rev r'))
               in dom_dot \<noteq> [] \<and> butlast dom_dot \<noteq> [] \<and>
                  list_all email_domain_char (butlast dom_dot) \<and>
                  2 \<le> length tld \<and> list_all ascii_letter tld)))"

text \<open>
  \<open>User.__post_init__\<close> after the dataclass constructor: the e-mail check, then the
  defaults. \<open>uuid4\<close> is what \<open>uuid.uuid4()\<close> returns if it is called, \<open>now\<close> the clock.
\<close>

definition validate_email :: "string \<Rightarrow> error + unit" where
  "validate_email em =
     (if em = [] \<or> \<not> email_regex_match em then Inl (ValidationException DM_REG_0001)
      else Inr ())"

definition User_init ::
  "string \<Rightarrow> string \<Rightarrow> UserStatus \<Rightarrow> uuid option \<Rightarrow> datetime option \<Rightarrow> datetime option
     \<Rightarrow> datetime option \<Rightarrow> uuid \<Rightarrow> datetime \<Rightarrow> error + User" where
  "User_init em ph st uid c_at u_at a_at uuid4 now =
     (case validate_email em of
        Inl e \<Rightarrow> Inl e
      | Inr _ \<Rightarrow> Inr \<lparr> email = em, password_hash = ph, status = st,
                      User.user_id = (case uid of None \<Rightarrow> uuid4 | Some i \<Rightarrow> i),
                      User.created_at = (case c_at of None \<Rightarrow> now | Some t \<Rightarrow> t),
                      updated_at = now,
                      activated_at = a_at \<rparr>)"

definition is_active :: "User \<Rightarrow> bool" where
  "is_active u = (status u = ACTIVE)"

text \<open>
  \<open>ActivationCode.generate_for_user\<close>: the code from \<open>random.randint(1000, 9999)\<close>,
  \<open>expires_at\<close> from a first reading \<open>t_gen\<close> of the clock, and \<open>created_at\<close> from the
  reading \<open>t_init\<close> that \<open>__post_init__\<close> takes afterwards.
\<close>

definition ActivationCode_init ::
  "uuid \<Rightarrow> string \<Rightarrow> datetime \<Rightarrow> datetime option \<Rightarrow> datetime option \<Rightarrow> bool \<Rightarrow> datetime
     \<Rightarrow> ActivationCode" where
  "ActivationCode_init uid cd e_at c_at u_at used now =
     \<lparr> ActivationCode.user_id = uid, code = cd, expires_at = e_at,
       ActivationCode.created_at = (case c_at of None \<Rightarrow> now | Some t \<Rightarrow> t),
       used_at = u_at, is_used = used \<rparr>"

definition generate_for_user :: "uuid \<Rightarrow> nat \<Rightarrow> datetime \<Rightarrow> datetime \<Rightarrow> ActivationCode" where
  "generate_for_user uid seed t_gen t_init =
     ActivationCode_init uid (format_04d (randint 1000 9999 seed))
       (t_gen + timedelta_minutes 1) None None False t_init"


definition is_expired :: "ActivationCode \<Rightarrow> datetime \<Rightarrow> bool" where
  "is_expired c now = (now \<ge> expires_at c)"

text \<open>\<open>PasswordValidator.validate\<close>: both failures raise the same exception.\<close>

definition PasswordValidator_validate :: "string \<Rightarrow> error + unit" where
  "PasswordValidator_validate pw =
     (if pw = [] \<or> length pw < 8 then Inl (ValidationException DM_REG_0002)
      else let has_letter = list_ex isalpha pw;
               has_number = list_ex isdigit pw
           in if \<not> (has_letter \<and> has_number) then Inl (ValidationException DM_REG_0002)
              else Inr ())"

section \<open>The relational store (infrastructure/database/postgresql_client.py)\<close>

text \<open>
  The two tables of \<open>create_tables\<close>, each a list of rows in insertion order, and the
  message queue. A statement fails by violating a constraint of the schema, or by
  carrying a text parameter with the character U+0000, which PostgreSQL refuses in any
  text value; a lost connection is outside the model. \<open>mq_up\<close> says whether the client
  holds a channel.

  The activation code is the one text that reaches a statement as the caller sent it
  (\<open>ActivationRequest.code\<close> is a plain \<open>str\<close>). An e-mail has passed \<open>EmailStr\<close> at
  the API and the regular expression of \<open>validate_email\<close> before it is written, and a
  password hash is bcrypt's output; neither holds U+0000.
\<close>

definition pg_text_ok :: "string \<Rightarrow> bool" where
  "pg_text_ok s = (CHR 0x00 \<notin> set s)"

record message =
  msg_type :: string
  recipient :: string
  activation_code :: string
  msg_user_id :: uuid
  subject :: string
  template :: string

record world =
  users :: "User list"
  activation_codes :: "ActivationCode list"
  queue :: "message list"
  mq_up :: bool

text \<open>
  \<open>INSERT INTO users\<close>: \<open>user_id\<close> is the primary key, \<open>email\<close> is \<open>UNIQUE\<close>, and
  \<open>email\<close> and \<open>password_hash\<close> are \<open>VARCHAR(255)\<close>. The statement names no
  \<open>activated_at\<close>, so the column is \<open>NULL\<close>. \<open>None\<close> is the error of a violated
  constraint.
\<close>

definition insert_user :: "world \<Rightarrow> User \<Rightarrow> world option" where
  "insert_user w u =
     (if list_ex (\<lambda>r. User.user_id r = User.user_id u) (users w)
         \<or> list_ex (\<lambda>r. email r = email u) (users w)
         \<or> length (email u) > 255 \<or> length (password_hash u) > 255
      then None
      else Some (w\<lparr>users := users w @ [u\<lparr>activated_at := None\<rparr>]\<rparr>))"

text \<open>
  \<open>INSERT INTO activation_codes\<close>: the primary key is \<open>(user_id, code)\<close>, \<open>user_id\<close>
  references \<open>users\<close>, \<open>code\<close> is \<open>VARCHAR(4)\<close> and a text value; \<open>used_at\<close> is
  not named and is \<open>NULL\<close>.
\<close>

definition insert_activation_code :: "world \<Rightarrow> ActivationCode \<Rightarrow> world option" where
  "insert_activation_code w c =
     (if list_ex (\<lambda>r. ActivationCode.user_id r = ActivationCode.user_id c \<and> code r = code c)
           (activation_codes w)
         \<or> \<not> list_ex (\<lambda>r. User.user_id r = ActivationCode.user_id c) (users w)
         \<or> length (code c) > 4 \<or> \<not> pg_text_ok (code c)
      then None
      else Some (w\<lparr>activation_codes := activation_codes w @ [c\<lparr>used_at := None\<rparr>]\<rparr>))"

section \<open>Repositories (domain/user/repository.py)\<close>

text \<open>
  The password hasher is bcrypt, a black box: \<open>hashpw pw salt\<close> is the hash and
  \<open>checkpw pw hash\<close> the verdict, \<open>None\<close> when \<open>bcrypt.checkpw\<close> raises (a malformed
  hash). Both are arguments of the functions that call them.
\<close>

definition row_to_User :: "User \<Rightarrow> datetime \<Rightarrow> error + User" where
  "row_to_User r now =
     User_init (email r) (password_hash r) (status r) (Some (User.user_id r))
       (Some (User.created_at r)) (Some (updated_at r)) (activated_at r) (User.user_id r) now"

definition get_user_by_email :: "world \<Rightarrow> string \<Rightarrow> bool \<Rightarrow> datetime \<Rightarrow> error + User option" where
  "get_user_by_email w em raise_if_not_found now =
     (case find (\<lambda>r. email r = em) (users w) of
        None \<Rightarrow> if raise_if_not_found then Inl UserNotFoundException else Inr None
      | Some r \<Rightarrow>
          (case row_to_User r now of
             Inl e \<Rightarrow> Inl (DatabaseException ''Failed to get user by email'')
           | Inr u \<Rightarrow> Inr (Some u)))"

definition get_user_by_id :: "world \<Rightarrow> uuid \<Rightarrow> datetime \<Rightarrow> error + User" where
  "get_user_by_id w uid now =
     (case find (\<lambda>r. User.user_id r = uid) (users w) of
        None \<Rightarrow> Inl UserNotFoundException
      | Some r \<Rightarrow>
          (case row_to_User r now of
             Inl e \<Rightarrow> Inl (DatabaseException ''Failed to get user by ID'')
           | Inr u \<Rightarrow> Inr u))"

text \<open>
  \<open>create_user\<close>: the existence check, the hash, the entity (whose constructor checks
  the e-mail and raises outside the \<open>try\<close>), the insert. Every failure of the insert
  is caught by \<open>except Exception\<close> and raised again as \<open>DatabaseException\<close>.
\<close>

definition create_user_insert ::
  "(string \<Rightarrow> string \<Rightarrow> string) \<Rightarrow> world \<Rightarrow> string \<Rightarrow> string \<Rightarrow> uuid \<Rightarrow> string \<Rightarrow> datetime
     \<Rightarrow> (error + User) \<times> world" where
  "create_user_insert hashpw w em pw uuid4 salt now =
     (case User_init em (hashpw pw salt) PENDING None None None None uuid4 now of
        Inl e \<Rightarrow> (Inl e, w)
      | Inr user \<Rightarrow>
          (case insert_user w user of
             None \<Rightarrow> (Inl (DatabaseException ''Failed to create user''), w)
           | Some w' \<Rightarrow> (Inr user, w')))"

text \<open>
  The check and the insert are two statements on the connection pool, with no
  transaction around them. \<open>create_user_between\<close> runs them with the statements
  \<open>other\<close> of other requests in between; \<open>create_user\<close> is the undisturbed run.
\<close>

definition create_user_between ::
  "(world \<Rightarrow> world) \<Rightarrow> (string \<Rightarrow> string \<Rightarrow> string) \<Rightarrow> world \<Rightarrow> string \<Rightarrow> string \<Rightarrow> uuid
     \<Rightarrow> string \<Rightarrow> datetime \<Rightarrow> (error + User) \<times> world" where
  "create_user_between other hashpw w em pw uuid4 salt now =
     (case get_user_by_email w em False now of
        Inl e \<Rightarrow> (Inl e, w)
      | Inr (Some existing_user) \<Rightarrow> (Inl EmailAlreadyExistsException, w)
      | Inr None \<Rightarrow> create_user_insert hashpw (other w) em pw uuid4 salt now)"

definition create_user ::
  "(string \<Rightarrow> string \<Rightarrow> string) \<Rightarrow> world \<Rightarrow> string \<Rightarrow> string \<Rightarrow> uuid \<Rightarrow> string \<Rightarrow> datetime
     \<Rightarrow> (error + User) \<times> world" where
  "create_user hashpw w em pw uuid4 salt now =
     create_user_between (\<lambda>x. x) hashpw w em pw uuid4 salt now"

text \<open>
  \<open>update_user_status\<close>: the \<open>UPDATE\<close>, then \<open>get_user_by_id\<close> inside the same
  \<open>try\<close>, so each of its exceptions comes out as \<open>DatabaseException\<close>.
\<close>

definition update_user_status ::
  "world \<Rightarrow> uuid \<Rightarrow> UserStatus \<Rightarrow> datetime option \<Rightarrow> datetime \<Rightarrow> (error + User) \<times> world" where
  "update_user_status w uid st a_at now =
     (let w' = w\<lparr>users := map (\<lambda>r. if User.user_id r = uid
                                     then r\<lparr>status := st, updated_at := now, activated_at := a_at\<rparr>
                                     else r) (users w)\<rparr>
      in case get_user_by_id w' uid now of
           Inl e \<Rightarrow> (Inl (DatabaseException ''Failed to update user status''), w')
         | Inr u \<Rightarrow> (Inr u, w'))"

definition verify_password :: "(string \<Rightarrow> string \<Rightarrow> bool option) \<Rightarrow> User \<Rightarrow> string \<Rightarrow> bool" where
  "verify_password checkpw u pw =
     (case checkpw pw (password_hash u) of None \<Rightarrow> False | Some b \<Rightarrow> b)"

definition invalidate_user_codes :: "world \<Rightarrow> uuid \<Rightarrow> datetime \<Rightarrow> world" where
  "invalidate_user_codes w uid now =
     w\<lparr>activation_codes :=
         map (\<lambda>r. if ActivationCode.user_id r = uid \<and> is_used r = False
                  then r\<lparr>is_used := True, used_at := Some now\<rparr> else r) (activation_codes w)\<rparr>"

text \<open>
  \<open>create_activation_code\<close> awaits \<open>invalidate_user_codes\<close> and then the \<open>INSERT\<close>:
  two statements on the connection pool, with no transaction around them.
  \<open>create_activation_code_between\<close> runs them with the statements \<open>other\<close> of other
  requests in between; \<open>create_activation_code\<close> is the undisturbed run.
\<close>

definition create_activation_code_between ::
  "(world \<Rightarrow> world) \<Rightarrow> world \<Rightarrow> ActivationCode \<Rightarrow> datetime
     \<Rightarrow> (error + ActivationCode) \<times> world" where
  "create_activation_code_between other w c now =
     (let w1 = other (invalidate_user_codes w (ActivationCode.user_id c) now)
      in case insert_activation_code w1 c of
           None \<Rightarrow> (Inl (DatabaseException ''Failed to create activation code''), w1)
         | Some w2 \<Rightarrow> (Inr c, w2))"

definition create_activation_code ::
  "world \<Rightarrow> ActivationCode \<Rightarrow> datetime \<Rightarrow> (error + ActivationCode) \<times> world" where
  "create_activation_code w c now = create_activation_code_between (\<lambda>x. x) w c now"

definition row_to_ActivationCode :: "ActivationCode \<Rightarrow> datetime \<Rightarrow> ActivationCode" where
  "row_to_ActivationCode r now =
     ActivationCode_init (ActivationCode.user_id r) (code r) (expires_at r)
       (Some (ActivationCode.created_at r)) (used_at r) (is_used r) now"

text \<open>
  \<open>get_activation_code\<close>: the \<open>SELECT\<close> takes the code as a text parameter, and every
  failure of the query is caught and raised again as \<open>DatabaseException\<close>.
\<close>

definition get_activation_code ::
  "world \<Rightarrow> uuid \<Rightarrow> string \<Rightarrow> datetime \<Rightarrow> error + ActivationCode option" where
  "get_activation_code w uid cd now =
     (if \<not> pg_text_ok cd then Inl (DatabaseException ''Failed to get activation code'')
      else case find (\<lambda>r. ActivationCode.user_id r = uid \<and> code r = cd) (activation_codes w) of
             None \<Rightarrow> Inr None
           | Some r \<Rightarrow> Inr (Some (row_to_ActivationCode r now)))"

text \<open>
  \<open>mark_code_as_used\<close> is called by the service only with a code that the
  \<open>SELECT\<close> of \<open>get_activation_code\<close> has just accepted, so its \<open>UPDATE\<close> takes the
  same text parameter without failing.
\<close>

definition mark_code_as_used :: "world \<Rightarrow> uuid \<Rightarrow> string \<Rightarrow> datetime \<Rightarrow> world" where
  "mark_code_as_used w uid cd now =
     w\<lparr>activation_codes :=
         map (\<lambda>r. if ActivationCode.user_id r = uid \<and> code r = cd
                  then r\<lparr>is_used := True, used_at := Some now\<rparr> else r) (activation_codes w)\<rparr>"

text \<open>
  \<open>cleanup_expired_codes\<close>: the \<open>DELETE\<close> returns its command tag, \<open>DELETE n\<close> with
  \<open>n\<close> the number of rows deleted, and the count is read back from the tag. An empty
  list from \<open>split()\<close> makes the index \<open>[-1]\<close> raise, and \<open>int\<close> may raise; both are
  caught and raised again as \<open>DatabaseException\<close>.
\<close>

definition sweepable :: "datetime \<Rightarrow> ActivationCode \<Rightarrow> bool" where
  "sweepable now r = (expires_at r < now \<or> is_used r = True)"

definition delete_expired_or_used :: "world \<Rightarrow> datetime \<Rightarrow> string \<times> world" where
  "delete_expired_or_used w now =
     (''DELETE '' @ str_nat (length (filter (sweepable now) (activation_codes w))),
      w\<lparr>activation_codes := filter (\<lambda>r. \<not> sweepable now r) (activation_codes w)\<rparr>)"

definition count_of_tag :: "string \<Rightarrow> error + nat" where
  "count_of_tag result =
     (if result = [] then Inr 0
      else case str_split result of
             [] \<Rightarrow> Inl (DatabaseException ''Failed to cleanup expired codes'')
           | ws \<Rightarrow> if str_isdigit (last ws)
                   then (case py_int (last ws) of
                           None \<Rightarrow> Inl (DatabaseException ''Failed to cleanup expired codes'')
                         | Some n \<Rightarrow> Inr n)
                   else Inr 0)"

definition cleanup_expired_codes :: "world \<Rightarrow> datetime \<Rightarrow> (error + nat) \<times> world" where
  "cleanup_expired_codes w now =
     (case delete_expired_or_used w now of (result, w') \<Rightarrow> (count_of_tag result, w'))"

section \<open>The e-mail service (infrastructure/email/email_service.py)\<close>

text \<open>
  \<open>send_activation_code\<close> publishes one message; \<open>publish_message\<close> raises when the
  client has no channel, and every failure comes out as \<open>EmailServiceException\<close>. The
  message's \<open>timestamp\<close>, a float of the event loop's clock, is left out.
\<close>

definition send_activation_code :: "world \<Rightarrow> string \<Rightarrow> string \<Rightarrow> uuid \<Rightarrow> (error + unit) \<times> world" where
  "send_activation_code w em cd uid =
     (if \<not> mq_up w then (Inl EmailServiceException, w)
      else (Inr (),
            w\<lparr>queue := queue w @
                 [\<lparr> msg_type = ''activation_code'', recipient = em, activation_code = cd,
                    msg_user_id = uid, subject = ''Your Dailymotion Activation Code'',
                    template = ''activation_code'' \<rparr>]\<rparr>))"

section \<open>The service (domain/user/service.py)\<close>

definition authenticate_user ::
  "(string \<Rightarrow> string \<Rightarrow> bool option) \<Rightarrow> world \<Rightarrow> string \<Rightarrow> string \<Rightarrow> datetime \<Rightarrow> error + User" where
  "authenticate_user checkpw w em pw now =
     (case get_user_by_email w em True now of
        Inl e \<Rightarrow> if e = UserNotFoundException then Inl AuthenticationException else Inl e
      | Inr None \<Rightarrow> Inl AuthenticationException
      | Inr (Some user) \<Rightarrow>
          if \<not> verify_password checkpw user pw then Inl AuthenticationException
          else Inr user)"

definition generate_and_send_activation_code ::
  "world \<Rightarrow> User \<Rightarrow> nat \<Rightarrow> datetime \<Rightarrow> (error + unit) \<times> world" where
  "generate_and_send_activation_code w user seed now =
     (let ac = generate_for_user (User.user_id user) seed now now
      in case create_activation_code w ac now of
           (Inl e, w1) \<Rightarrow> (Inl e, w1)
         | (Inr _, w1) \<Rightarrow> send_activation_code w1 (email user) (code ac) (User.user_id user))"

definition verify_activation_code :: "world \<Rightarrow> uuid \<Rightarrow> string \<Rightarrow> datetime \<Rightarrow> error + unit" where
  "verify_activation_code w uid cd now =
     (case get_activation_code w uid cd now of
        Inl e \<Rightarrow> Inl e
      | Inr None \<Rightarrow> Inl InvalidActivationCodeException
      | Inr (Some ac) \<Rightarrow>
          if is_used ac then Inl InvalidActivationCodeException
          else if is_expired ac now then Inl ActivationCodeExpiredException
          else Inr ())"

definition register_user ::
  "(string \<Rightarrow> string \<Rightarrow> string) \<Rightarrow> world \<Rightarrow> string \<Rightarrow> string \<Rightarrow> uuid \<Rightarrow> string \<Rightarrow> nat \<Rightarrow> datetime
     \<Rightarrow> (error + User) \<times> world" where
  "register_user hashpw w em pw uuid4 salt seed now =
     (case PasswordValidator_validate pw of
        Inl e \<Rightarrow> (Inl e, w)
      | Inr _ \<Rightarrow>
          (case create_user hashpw w em pw uuid4 salt now of
             (Inl e, w1) \<Rightarrow> (Inl e, w1)
           | (Inr user, w1) \<Rightarrow>
               (case generate_and_send_activation_code w1 user seed now of
                  (Inl e, w2) \<Rightarrow> (Inl e, w2)
                | (Inr _, w2) \<Rightarrow> (Inr user, w2))))"

definition activate_user ::
  "(string \<Rightarrow> string \<Rightarrow> bool option) \<Rightarrow> world \<Rightarrow> string \<Rightarrow> string \<Rightarrow> string \<Rightarrow> datetime
     \<Rightarrow> (error + User) \<times> world" where
  "activate_user checkpw w em pw cd now =
     (case authenticate_user checkpw w em pw now of
        Inl e \<Rightarrow> (Inl e, w)
      | Inr user \<Rightarrow>
          if is_active user then (Inl UserAlreadyActivatedException, w)
          else
            (case verify_activation_code w (User.user_id user) cd now of
               Inl e \<Rightarrow> (Inl e, w)
             | Inr _ \<Rightarrow>
                 (case update_user_status w (User.user_id user) ACTIVE (Some now) now of
                    (Inl e, w1) \<Rightarrow> (Inl e, w1)
                  | (Inr activated_user, w1) \<Rightarrow>
                      (Inr activated_user, mark_code_as_used w1 (User.user_id user) cd now))))"

definition resend_activation_code ::
  "(string \<Rightarrow> string \<Rightarrow> bool option) \<Rightarrow> world \<Rightarrow> string \<Rightarrow> string \<Rightarrow> nat \<Rightarrow> datetime
     \<Rightarrow> (error + unit) \<times> world" where
  "resend_activation_code checkpw w em pw seed now =
     (case authenticate_user checkpw w em pw now of
        Inl e \<Rightarrow> (Inl e, w)
      | Inr user \<Rightarrow>
          if is_active user then (Inl UserAlreadyActivatedException, w)
          else generate_and_send_activation_code w user seed now)"

text \<open>\<open>UserService.cleanup_expired_codes\<close> turns every failure into the count 0.\<close>

definition service_cleanup_expired_codes :: "world \<Rightarrow> datetime \<Rightarrow> nat \<times> world" where
  "service_cleanup_expired_codes w now =
     (case cleanup_expired_codes w now of
        (Inl e, w') \<Rightarrow> (0, w')
      | (Inr n, w') \<Rightarrow> (n, w'))"

section \<open>Stores the service can reach\<close>

text \<open>
  The constraints of the schema (primary keys, the unique e-mail) and what
  \<open>create_user\<close> checks before a row is written (the stored e-mail passes
  \<open>validate_email\<close>).
\<close>

definition world_ok :: "world \<Rightarrow> bool" where
  "world_ok w =
     (distinct (map User.user_id (users w)) \<and> distinct (map email (users w))
      \<and> list_all (\<lambda>r. validate_email (email r) = Inr ()) (users w)
      \<and> distinct (map (\<lambda>r. (ActivationCode.user_id r, code r)) (activation_codes w)))"

text \<open>
  A toy hasher for the examples: the hash is the salt, a dollar sign and the password;
  a hash without a dollar sign is malformed.
\<close>

definition toy_hashpw :: "string \<Rightarrow> string \<Rightarrow> string" where
  "toy_hashpw pw salt = salt @ ''$'' @ pw"

definition toy_checkpw :: "string \<Rightarrow> string \<Rightarrow> bool option" where
  "toy_checkpw pw h =
     (if CHR ''$'' \<notin> set h then None
      else Some (tl (dropWhile (\<lambda>c. c \<noteq> CHR ''$'') h) = pw))"

text \<open>Example stores: nobody registered; one pending user with a code; the same user activated.\<close>

definition empty_world :: world where
  "empty_world = \<lparr>users = [], activation_codes = [], queue = [], mq_up = True\<rparr>"

definition alice :: User where
  "alice = \<lparr>email = ''a@x.com'', password_hash = ''s$pass1234'', status = PENDING,
     User.user_id = UUID 7, User.created_at = 100, updated_at = 100, activated_at = None\<rparr>"

definition alice_code :: ActivationCode where
  "alice_code = \<lparr>ActivationCode.user_id = UUID 7, code = ''4821'', expires_at = 60000100,
     ActivationCode.created_at = 100, used_at = None, is_used = False\<rparr>"

definition pending_world :: world where
  "pending_world = \<lparr>users = [alice], activation_codes = [alice_code], queue = [], mq_up = True\<rparr>"

definition active_world :: world where
  "active_world =
     \<lparr>users = [alice\<lparr>status := ACTIVE, updated_at := 200, activated_at := Some 200\<rparr>],
      activation_codes = [alice_code\<lparr>is_used := True, used_at := Some 200\<rparr>],
      queue = [], mq_up = True\<rparr>"

definition alice_code2 :: ActivationCode where
  "alice_code2 = \<lparr>ActivationCode.user_id = UUID 7, code = ''1000'', expires_at = 60000200,
     ActivationCode.created_at = 200, used_at = None, is_used = False\<rparr>"

definition resent_world :: world where
  "resent_world =
     \<lparr>users = [alice],
      activation_codes = [alice_code\<lparr>is_used := True, used_at := Some 200\<rparr>, alice_code2],
      queue = [], mq_up = True\<rparr>"




text \<open>Every stored code is a text value the store accepted.\<close>

definition codes_storable :: "world \<Rightarrow> bool" where
  "codes_storable w = list_all (\<lambda>r. pg_text_ok (code r)) (activation_codes w)"

text \<open>
  A competing registration: another request inserts its own user with the e-mail
  \<open>a@x.com\<close> between the existence check and the insert of \<open>create_user\<close>.
\<close>

definition rival :: User where
  "rival = \<lparr>email = ''a@x.com'', password_hash = ''t$other5678'', status = PENDING,
     User.user_id = UUID 9, User.created_at = 99, updated_at = 99, activated_at = None\<rparr>"

definition rival_insert :: "world \<Rightarrow> world" where
  "rival_insert w = (case insert_user w rival of None \<Rightarrow> w | Some w' \<Rightarrow> w')"

section \<open>Properties\<close>

subsection \<open>The password policy\<close>






subsection \<open>Reading rows, authentication\<close>

lemma row_to_User_ok:
  "validate_email (email r) = Inr () \<Longrightarrow> row_to_User r now = Inr (r\<lparr>updated_at := now\<rparr>)"
  by (simp add: row_to_User_def User_init_def)

lemma row_to_User_bad:
  "validate_email (email r) \<noteq> Inr () \<Longrightarrow> \<exists>e. row_to_User r now = Inl e"
  by (cases "validate_email (email r)") (simp_all add: row_to_User_def User_init_def)

lemma row_to_ActivationCode_id: "row_to_ActivationCode r now = r"
  by (simp add: row_to_ActivationCode_def ActivationCode_init_def)

lemma get_activation_code_find:
  "pg_text_ok cd \<Longrightarrow>
   get_activation_code w uid cd now =
     Inr (find (\<lambda>r. ActivationCode.user_id r = uid \<and> code r = cd) (activation_codes w))"
  by (simp add: get_activation_code_def row_to_ActivationCode_id split: option.splits)

lemma get_activation_code_refused:
  "\<not> pg_text_ok cd \<Longrightarrow>
   get_activation_code w uid cd now = Inl (DatabaseException ''Failed to get activation code'')"
  by (simp add: get_activation_code_def)

lemma get_activation_code_Inr:
  "get_activation_code w uid cd now = Inr x \<Longrightarrow>
     pg_text_ok cd
     \<and> x = find (\<lambda>r. ActivationCode.user_id r = uid \<and> code r = cd) (activation_codes w)"
  by (cases "pg_text_ok cd") (simp_all add: get_activation_code_find get_activation_code_refused)

lemma find_in_valid:
  "list_all Q xs \<Longrightarrow> find P xs = Some r \<Longrightarrow> Q r"
  by (induction xs) (auto split: if_splits)

lemma get_user_by_email_none:
  "find (\<lambda>r. email r = em) (users w) = None \<Longrightarrow>
     get_user_by_email w em True now = Inl UserNotFoundException"
  by (simp add: get_user_by_email_def)

lemma get_user_by_email_some:
  "find (\<lambda>r. email r = em) (users w) = Some r \<Longrightarrow> validate_email (email r) = Inr () \<Longrightarrow>
     get_user_by_email w em b now = Inr (Some (r\<lparr>updated_at := now\<rparr>))"
  by (simp add: get_user_by_email_def row_to_User_ok)

lemma authenticate_user_missing:
  "find (\<lambda>r. email r = em) (users w) = None \<Longrightarrow>
     authenticate_user checkpw w em pw now = Inl AuthenticationException"
  by (simp add: authenticate_user_def get_user_by_email_none)

lemma authenticate_user_found:
  "find (\<lambda>r. email r = em) (users w) = Some r \<Longrightarrow> validate_email (email r) = Inr () \<Longrightarrow>
     authenticate_user checkpw w em pw now =
       (if verify_password checkpw r pw then Inr (r\<lparr>updated_at := now\<rparr>)
        else Inl AuthenticationException)"
  by (simp add: authenticate_user_def get_user_by_email_some verify_password_def)

lemma authenticate_user_Inr:
  assumes "authenticate_user checkpw w em pw now = Inr u"
  shows "\<exists>r. find (\<lambda>r. email r = em) (users w) = Some r \<and> validate_email (email r) = Inr ()
           \<and> verify_password checkpw r pw \<and> u = r\<lparr>updated_at := now\<rparr>"
proof (cases "find (\<lambda>r. email r = em) (users w)")
  case None
  with assms show ?thesis by (simp add: authenticate_user_missing)
next
  case (Some r)
  show ?thesis
  proof (cases "validate_email (email r) = Inr ()")
    case True
    with Some assms show ?thesis
      by (simp add: authenticate_user_found split: if_splits)
  next
    case False
    then obtain e where "row_to_User r now = Inl e" using row_to_User_bad by blast
    with Some assms show ?thesis
      by (simp add: authenticate_user_def get_user_by_email_def)
  qed
qed


lemma users_valid_find:
  "world_ok w \<Longrightarrow> find P (users w) = Some r \<Longrightarrow> validate_email (email r) = Inr ()"
  unfolding world_ok_def using find_in_valid [of "\<lambda>r. validate_email (email r) = Inr ()" "users w" P r]
  by blast

text \<open>
  Claim C4. When no user has the e-mail, or the password does not verify against the
  stored hash, \<open>_authenticate_user\<close> raises \<open>AuthenticationException\<close>, and so do
  \<open>activate_user\<close> and \<open>resend_activation_code\<close>, with the store untouched: the same
  exception value, error code \<open>DM_REG_0010\<close> and status 401, in both cases.
\<close>

theorem authentication_failure_indistinguishable:
  assumes ok: "world_ok w"
    and fail: "find (\<lambda>r. email r = em) (users w) = None
               \<or> (\<exists>r. find (\<lambda>r. email r = em) (users w) = Some r \<and> \<not> verify_password checkpw r pw)"
  shows "authenticate_user checkpw w em pw now = Inl AuthenticationException
       \<and> activate_user checkpw w em pw cd now = (Inl AuthenticationException, w)
       \<and> resend_activation_code checkpw w em pw seed now = (Inl AuthenticationException, w)
       \<and> err_code AuthenticationException = DM_REG_0010
       \<and> err_status_code AuthenticationException = 401"
proof -
  have auth: "authenticate_user checkpw w em pw now = Inl AuthenticationException"
  proof (cases "find (\<lambda>r. email r = em) (users w)")
    case None
    then show ?thesis by (rule authenticate_user_missing)
  next
    case (Some r)
    with fail have bad: "\<not> verify_password checkpw r pw" by simp
    from ok Some have "validate_email (email r) = Inr ()" by (rule users_valid_find)
    with Some bad show ?thesis by (simp add: authenticate_user_found)
  qed
  then show ?thesis
    by (simp add: activate_user_def resend_activation_code_def)
qed

theorem authentication_failure_indistinguishable_witness:
  "world_ok pending_world
   \<and> find (\<lambda>r. email r = ''b@x.com'') (users pending_world) = None
   \<and> activate_user toy_checkpw pending_world ''b@x.com'' ''pass1234'' ''4821'' 200
        = (Inl AuthenticationException, pending_world)
   \<and> (\<exists>r. find (\<lambda>r. email r = ''a@x.com'') (users pending_world) = Some r
            \<and> \<not> verify_password toy_checkpw r ''wrong'')
   \<and> activate_user toy_checkpw pending_world ''a@x.com'' ''wrong'' ''4821'' 200
        = (Inl AuthenticationException, pending_world)
   \<and> resend_activation_code toy_checkpw pending_world ''a@x.com'' ''wrong'' 7 200
        = (Inl AuthenticationException, pending_world)"
proof -
  have ok: "world_ok pending_world"
    by (simp add: world_ok_def pending_world_def alice_def alice_code_def validate_email_def
        email_regex_match_def email_local_char_def email_domain_char_def ascii_letter_def
        ascii_digit_def in_range_def strip_final_newline_def)
  have a: "find (\<lambda>r. email r = ''b@x.com'') (users pending_world) = None"
    by (simp add: pending_world_def alice_def)
  have b: "\<exists>r. find (\<lambda>r. email r = ''a@x.com'') (users pending_world) = Some r
            \<and> \<not> verify_password toy_checkpw r ''wrong''"
    by (simp add: pending_world_def alice_def verify_password_def toy_checkpw_def)
  from authentication_failure_indistinguishable [OF ok disjI1 [OF a], of toy_checkpw "''pass1234''" 200 "''4821''" 7]
    authentication_failure_indistinguishable [OF ok disjI2 [OF b], of 200 "''4821''" 7]
    ok a b
  show ?thesis by blast
qed


subsection \<open>Users that are already active\<close>

lemma active_world_ok: "world_ok active_world"
  by (simp add: world_ok_def active_world_def alice_def alice_code_def validate_email_def
      email_regex_match_def email_local_char_def email_domain_char_def ascii_letter_def
      ascii_digit_def in_range_def strip_final_newline_def)

lemma pending_world_ok: "world_ok pending_world"
  by (simp add: world_ok_def pending_world_def alice_def alice_code_def validate_email_def
      email_regex_match_def email_local_char_def email_domain_char_def ascii_letter_def
      ascii_digit_def in_range_def strip_final_newline_def)

lemma alice_email_valid: "validate_email ''a@x.com'' = Inr ()"
  by (simp add: validate_email_def
      email_regex_match_def email_local_char_def email_domain_char_def ascii_letter_def
      ascii_digit_def in_range_def strip_final_newline_def)

text \<open>
  Claim C6 as stated fails: authentication comes first, so for an \<open>ACTIVE\<close> user a
  wrong password gives \<open>AuthenticationException\<close>, not
  \<open>UserAlreadyActivatedException\<close>.
\<close>

theorem active_user_wrong_password_counterexample:
  "find (\<lambda>r. email r = ''a@x.com'') (users active_world)
     = Some (alice\<lparr>status := ACTIVE, updated_at := 200, activated_at := Some 200\<rparr>)
   \<and> activate_user toy_checkpw active_world ''a@x.com'' ''wrong'' ''4821'' 300
        = (Inl AuthenticationException, active_world)
   \<and> resend_activation_code toy_checkpw active_world ''a@x.com'' ''wrong'' 7 300
        = (Inl AuthenticationException, active_world)
   \<and> AuthenticationException \<noteq> UserAlreadyActivatedException"
proof -
  have f: "find (\<lambda>r. email r = ''a@x.com'') (users active_world)
     = Some (alice\<lparr>status := ACTIVE, updated_at := 200, activated_at := Some 200\<rparr>)"
    by (simp add: active_world_def alice_def)
  have v: "validate_email (email (alice\<lparr>status := ACTIVE, updated_at := 200, activated_at := Some 200\<rparr>)) = Inr ()"
    by (simp add: alice_def alice_email_valid)
  have "authenticate_user toy_checkpw active_world ''a@x.com'' ''wrong'' 300 = Inl AuthenticationException"
    by (simp add: authenticate_user_found [OF f v] verify_password_def toy_checkpw_def alice_def)
  then show ?thesis using f
    by (simp add: activate_user_def resend_activation_code_def)
qed

text \<open>
  Claim C6, amended. For a user whose status is \<open>ACTIVE\<close> and whose password
  verifies, \<open>activate_user\<close> with any code and \<open>resend_activation_code\<close> raise
  \<open>UserAlreadyActivatedException\<close> and leave the store untouched.
\<close>

theorem active_user_already_activated:
  assumes ok: "world_ok w"
    and found: "find (\<lambda>r. email r = em) (users w) = Some r"
    and active: "status r = ACTIVE"
    and pw_ok: "verify_password checkpw r pw"
  shows "activate_user checkpw w em pw cd now = (Inl UserAlreadyActivatedException, w)
       \<and> resend_activation_code checkpw w em pw seed now = (Inl UserAlreadyActivatedException, w)"
proof -
  from ok found have "validate_email (email r) = Inr ()" by (rule users_valid_find)
  with found pw_ok
  have "authenticate_user checkpw w em pw now = Inr (r\<lparr>updated_at := now\<rparr>)"
    by (simp add: authenticate_user_found)
  with active show ?thesis
    by (simp add: activate_user_def resend_activation_code_def is_active_def)
qed

theorem active_user_already_activated_witness:
  "world_ok active_world
   \<and> find (\<lambda>r. email r = ''a@x.com'') (users active_world)
       = Some (alice\<lparr>status := ACTIVE, updated_at := 200, activated_at := Some 200\<rparr>)
   \<and> status (alice\<lparr>status := ACTIVE, updated_at := 200, activated_at := Some 200\<rparr>) = ACTIVE
   \<and> verify_password toy_checkpw
        (alice\<lparr>status := ACTIVE, updated_at := 200, activated_at := Some 200\<rparr>) ''pass1234''
   \<and> activate_user toy_checkpw active_world ''a@x.com'' ''pass1234'' ''0000'' 300
        = (Inl UserAlreadyActivatedException, active_world)
   \<and> resend_activation_code toy_checkpw active_world ''a@x.com'' ''pass1234'' 7 300
        = (Inl UserAlreadyActivatedException, active_world)"
proof -
  have f: "find (\<lambda>r. email r = ''a@x.com'') (users active_world)
     = Some (alice\<lparr>status := ACTIVE, updated_at := 200, activated_at := Some 200\<rparr>)"
    by (simp add: active_world_def alice_def)
  have s: "status (alice\<lparr>status := ACTIVE, updated_at := 200, activated_at := Some 200\<rparr>) = ACTIVE"
    by simp
  have v: "verify_password toy_checkpw
        (alice\<lparr>status := ACTIVE, updated_at := 200, activated_at := Some 200\<rparr>) ''pass1234''"
    by (simp add: verify_password_def toy_checkpw_def alice_def)
  from active_user_already_activated [OF active_world_ok f s v, of "''0000''" 300 7]
    active_world_ok f s v
  show ?thesis by blast
qed

subsection \<open>Failed activations write nothing\<close>

text \<open>
  Claim C10. When \<open>activate_user\<close> raises \<open>AuthenticationException\<close>,
  \<open>UserAlreadyActivatedException\<close>, \<open>InvalidActivationCodeException\<close> or
  \<open>ActivationCodeExpiredException\<close>, the users, the codes and the queue are exactly
  what they were before the call.
\<close>

theorem activate_failure_leaves_world:
  assumes "activate_user checkpw w em pw cd now = (Inl e, w')"
    and "e = AuthenticationException \<or> e = UserAlreadyActivatedException
         \<or> e = InvalidActivationCodeException \<or> e = ActivationCodeExpiredException"
  shows "w' = w"
proof (cases "authenticate_user checkpw w em pw now")
  case (Inl a)
  with assms(1) show ?thesis by (simp add: activate_user_def)
next
  case (Inr user)
  show ?thesis
  proof (cases "is_active user")
    case True
    with Inr assms(1) show ?thesis by (simp add: activate_user_def)
  next
    case False
    show ?thesis
    proof (cases "verify_activation_code w (User.user_id user) cd now")
      case (Inl b)
      with Inr False assms(1) show ?thesis by (simp add: activate_user_def)
    next
      case ok: (Inr u)
      obtain res w1 where upd: "update_user_status w (User.user_id user) ACTIVE (Some now) now = (res, w1)"
        by (cases "update_user_status w (User.user_id user) ACTIVE (Some now) now")
      show ?thesis
      proof (cases res)
        case (Inl d)
        with upd have "d = DatabaseException ''Failed to update user status''"
          by (auto simp: update_user_status_def Let_def split: sum.splits)
        with Inl upd Inr False ok assms(1) have "e = DatabaseException ''Failed to update user status''"
          by (simp add: activate_user_def)
        with assms(2) show ?thesis by simp
      next
        case (Inr au)
        with upd \<open>authenticate_user checkpw w em pw now = Inr user\<close> False ok assms(1)
        show ?thesis by (simp add: activate_user_def)
      qed
    qed
  qed
qed

theorem activate_failure_leaves_world_witness:
  "activate_user toy_checkpw pending_world ''a@x.com'' ''pass1234'' ''9999'' 200
     = (Inl InvalidActivationCodeException, pending_world)
   \<and> (InvalidActivationCodeException = AuthenticationException
       \<or> InvalidActivationCodeException = UserAlreadyActivatedException
       \<or> InvalidActivationCodeException = InvalidActivationCodeException
       \<or> InvalidActivationCodeException = ActivationCodeExpiredException)
   \<and> pending_world = pending_world
   \<and> get_activation_code pending_world (UUID 7) ''4821'' 200 = Inr (Some alice_code)"
proof -
  have f: "find (\<lambda>r. email r = ''a@x.com'') (users pending_world) = Some alice"
    by (simp add: pending_world_def alice_def)
  have v: "validate_email (email alice) = Inr ()"
    by (simp add: alice_def alice_email_valid)
  have au: "authenticate_user toy_checkpw pending_world ''a@x.com'' ''pass1234'' 200
              = Inr (alice\<lparr>updated_at := 200\<rparr>)"
    by (simp add: authenticate_user_found [OF f v] verify_password_def toy_checkpw_def alice_def)
  have vc: "verify_activation_code pending_world (UUID 7) ''9999'' 200 = Inl InvalidActivationCodeException"
    by (simp add: verify_activation_code_def get_activation_code_find pg_text_ok_def
        pending_world_def alice_code_def)
  have run: "activate_user toy_checkpw pending_world ''a@x.com'' ''pass1234'' ''9999'' 200
     = (Inl InvalidActivationCodeException, pending_world)"
    by (simp add: activate_user_def au is_active_def alice_def vc)
  have g: "get_activation_code pending_world (UUID 7) ''4821'' 200 = Inr (Some alice_code)"
    by (simp add: get_activation_code_find pg_text_ok_def pending_world_def alice_code_def)
  from activate_failure_leaves_world [OF run] run g show ?thesis by simp
qed


subsection \<open>Verifying a code\<close>

lemma find_map_preserve:
  "(\<And>x. P (g x) = P x) \<Longrightarrow> find P (map g xs) = map_option g (find P xs)"
  by (induction xs) simp_all

lemma find_distinct_key:
  "distinct (map f xs) \<Longrightarrow> x \<in> set xs \<Longrightarrow> find (\<lambda>y. f y = f x) xs = Some x"
  by (induction xs) (auto simp: image_iff)

lemma find_Some_holds: "find P xs = Some x \<Longrightarrow> P x \<and> x \<in> set xs"
  by (induction xs) (auto split: if_splits)

lemma verify_activation_code_refused:
  "\<not> pg_text_ok cd \<Longrightarrow>
     verify_activation_code w uid cd now
       = Inl (DatabaseException ''Failed to get activation code'')"
  by (simp add: verify_activation_code_def get_activation_code_refused)

lemma verify_activation_code_none:
  "get_activation_code w uid cd now = Inr None \<Longrightarrow>
     verify_activation_code w uid cd now = Inl InvalidActivationCodeException"
  by (simp add: verify_activation_code_def)

lemma verify_activation_code_some:
  "get_activation_code w uid cd now = Inr (Some c) \<Longrightarrow>
     verify_activation_code w uid cd now =
       (if is_used c then Inl InvalidActivationCodeException
        else if expires_at c \<le> now then Inl ActivationCodeExpiredException
        else Inr ())"
  by (simp add: verify_activation_code_def is_expired_def)

lemma alice_authenticates:
  "authenticate_user toy_checkpw pending_world ''a@x.com'' ''pass1234'' now
     = Inr (alice\<lparr>updated_at := now\<rparr>)"
proof -
  have f: "find (\<lambda>r. email r = ''a@x.com'') (users pending_world) = Some alice"
    by (simp add: pending_world_def alice_def)
  have v: "validate_email (email alice) = Inr ()"
    by (simp add: alice_def alice_email_valid)
  show ?thesis
    by (simp add: authenticate_user_found [OF f v] verify_password_def toy_checkpw_def alice_def)
qed

lemma alice_authenticates_resent:
  "authenticate_user toy_checkpw resent_world ''a@x.com'' ''pass1234'' now
     = Inr (alice\<lparr>updated_at := now\<rparr>)"
proof -
  have f: "find (\<lambda>r. email r = ''a@x.com'') (users resent_world) = Some alice"
    by (simp add: resent_world_def alice_def)
  have v: "validate_email (email alice) = Inr ()"
    by (simp add: alice_def alice_email_valid)
  show ?thesis
    by (simp add: authenticate_user_found [OF f v] verify_password_def toy_checkpw_def alice_def)
qed

text \<open>
  Claim C2 as stated fails for a code that holds the character U+0000: no row exists
  for it, yet the lookup itself fails, and \<open>activate_user\<close> raises
  \<open>DatabaseException\<close>, not \<open>InvalidActivationCodeException\<close>.
\<close>

theorem code_with_nul_counterexample:
  "authenticate_user toy_checkpw pending_world ''a@x.com'' ''pass1234'' 200
     = Inr (alice\<lparr>updated_at := 200\<rparr>)
   \<and> \<not> is_active (alice\<lparr>updated_at := 200\<rparr>)
   \<and> \<not> list_ex (\<lambda>r. ActivationCode.user_id r = User.user_id (alice\<lparr>updated_at := 200\<rparr>)
                    \<and> code r = [CHR 0x00]) (activation_codes pending_world)
   \<and> activate_user toy_checkpw pending_world ''a@x.com'' ''pass1234'' [CHR 0x00] 200
        = (Inl (DatabaseException ''Failed to get activation code''), pending_world)
   \<and> DatabaseException ''Failed to get activation code'' \<noteq> InvalidActivationCodeException"
proof -
  have na: "\<not> is_active (alice\<lparr>updated_at := 200\<rparr>)"
    by (simp add: is_active_def alice_def)
  have norow: "\<not> list_ex (\<lambda>r. ActivationCode.user_id r = User.user_id (alice\<lparr>updated_at := 200\<rparr>)
                    \<and> code r = [CHR 0x00]) (activation_codes pending_world)"
    by (simp add: pending_world_def alice_code_def)
  have bad: "\<not> pg_text_ok [CHR 0x00]" by (simp add: pg_text_ok_def)
  have "activate_user toy_checkpw pending_world ''a@x.com'' ''pass1234'' [CHR 0x00] 200
        = (Inl (DatabaseException ''Failed to get activation code''), pending_world)"
    using na by (simp add: activate_user_def alice_authenticates verify_activation_code_refused [OF bad])
  with na norow alice_authenticates [of 200] show ?thesis by simp
qed

text \<open>
  Claim C2, amended. For an authenticated call on a user that is not \<open>ACTIVE\<close>, with
  a code the store accepts as a text parameter (no character U+0000): no row for
  (user id, code), or a row with \<open>is_used\<close> true whatever its expiry, gives
  \<open>InvalidActivationCodeException\<close>; an unused row with \<open>now \<ge> expires_at\<close> gives
  \<open>ActivationCodeExpiredException\<close>. A code that holds U+0000 makes the lookup fail
  and gives \<open>DatabaseException\<close>. In each case the store is left as it was.
\<close>

theorem used_checked_before_expired:
  assumes auth: "authenticate_user checkpw w em pw now = Inr u"
    and inactive: "\<not> is_active u"
  shows "(pg_text_ok cd
          \<and> \<not> list_ex (\<lambda>r. ActivationCode.user_id r = User.user_id u \<and> code r = cd)
                (activation_codes w) \<longrightarrow>
            activate_user checkpw w em pw cd now = (Inl InvalidActivationCodeException, w))
       \<and> (\<forall>c. pg_text_ok cd
              \<and> find (\<lambda>r. ActivationCode.user_id r = User.user_id u \<and> code r = cd)
                   (activation_codes w) = Some c
              \<and> is_used c \<longrightarrow>
            activate_user checkpw w em pw cd now = (Inl InvalidActivationCodeException, w))
       \<and> (\<forall>c. pg_text_ok cd
              \<and> find (\<lambda>r. ActivationCode.user_id r = User.user_id u \<and> code r = cd)
                   (activation_codes w) = Some c
              \<and> \<not> is_used c \<and> now \<ge> expires_at c \<longrightarrow>
            activate_user checkpw w em pw cd now = (Inl ActivationCodeExpiredException, w))
       \<and> (\<not> pg_text_ok cd \<longrightarrow>
            activate_user checkpw w em pw cd now
              = (Inl (DatabaseException ''Failed to get activation code''), w))"
proof (intro conjI allI impI)
  assume h: "pg_text_ok cd
          \<and> \<not> list_ex (\<lambda>r. ActivationCode.user_id r = User.user_id u \<and> code r = cd)
                (activation_codes w)"
  then have "find (\<lambda>r. ActivationCode.user_id r = User.user_id u \<and> code r = cd)
                (activation_codes w) = None"
    by (simp add: find_None_iff list_ex_iff)
  with h have "get_activation_code w (User.user_id u) cd now = Inr None"
    by (simp add: get_activation_code_find)
  then show "activate_user checkpw w em pw cd now = (Inl InvalidActivationCodeException, w)"
    using auth inactive by (simp add: activate_user_def verify_activation_code_none)
next
  fix c
  assume h: "pg_text_ok cd
              \<and> find (\<lambda>r. ActivationCode.user_id r = User.user_id u \<and> code r = cd)
                   (activation_codes w) = Some c
              \<and> is_used c"
  then have "get_activation_code w (User.user_id u) cd now = Inr (Some c)"
    by (simp add: get_activation_code_find)
  then show "activate_user checkpw w em pw cd now = (Inl InvalidActivationCodeException, w)"
    using auth inactive h by (simp add: activate_user_def verify_activation_code_some)
next
  fix c
  assume h: "pg_text_ok cd
              \<and> find (\<lambda>r. ActivationCode.user_id r = User.user_id u \<and> code r = cd)
                   (activation_codes w) = Some c
              \<and> \<not> is_used c \<and> now \<ge> expires_at c"
  then have "get_activation_code w (User.user_id u) cd now = Inr (Some c)"
    by (simp add: get_activation_code_find)
  then show "activate_user checkpw w em pw cd now = (Inl ActivationCodeExpiredException, w)"
    using auth inactive h by (simp add: activate_user_def verify_activation_code_some)
next
  assume "\<not> pg_text_ok cd"
  then show "activate_user checkpw w em pw cd now
              = (Inl (DatabaseException ''Failed to get activation code''), w)"
    using auth inactive by (simp add: activate_user_def verify_activation_code_refused)
qed

theorem used_checked_before_expired_witness:
  "authenticate_user toy_checkpw resent_world ''a@x.com'' ''pass1234'' 70000000
     = Inr (alice\<lparr>updated_at := 70000000\<rparr>)
   \<and> \<not> is_active (alice\<lparr>updated_at := 70000000\<rparr>)
   \<and> pg_text_ok ''9999''
   \<and> \<not> list_ex (\<lambda>r. ActivationCode.user_id r = UUID 7 \<and> code r = ''9999'')
         (activation_codes resent_world)
   \<and> activate_user toy_checkpw resent_world ''a@x.com'' ''pass1234'' ''9999'' 70000000
        = (Inl InvalidActivationCodeException, resent_world)
   \<and> pg_text_ok ''4821''
   \<and> find (\<lambda>r. ActivationCode.user_id r = UUID 7 \<and> code r = ''4821'')
         (activation_codes resent_world)
        = Some (alice_code\<lparr>is_used := True, used_at := Some 200\<rparr>)
   \<and> is_used (alice_code\<lparr>is_used := True, used_at := Some 200\<rparr>)
   \<and> expires_at (alice_code\<lparr>is_used := True, used_at := Some 200\<rparr>) \<le> 70000000
   \<and> activate_user toy_checkpw resent_world ''a@x.com'' ''pass1234'' ''4821'' 70000000
        = (Inl InvalidActivationCodeException, resent_world)
   \<and> pg_text_ok ''1000''
   \<and> find (\<lambda>r. ActivationCode.user_id r = UUID 7 \<and> code r = ''1000'')
         (activation_codes resent_world) = Some alice_code2
   \<and> \<not> is_used alice_code2 \<and> expires_at alice_code2 \<le> 70000000
   \<and> activate_user toy_checkpw resent_world ''a@x.com'' ''pass1234'' ''1000'' 70000000
        = (Inl ActivationCodeExpiredException, resent_world)
   \<and> \<not> pg_text_ok [CHR 0x00]
   \<and> activate_user toy_checkpw resent_world ''a@x.com'' ''pass1234'' [CHR 0x00] 70000000
        = (Inl (DatabaseException ''Failed to get activation code''), resent_world)"
proof -
  have uid: "User.user_id (alice\<lparr>updated_at := 70000000\<rparr>) = UUID 7"
    by (simp add: alice_def)
  have na: "\<not> is_active (alice\<lparr>updated_at := 70000000\<rparr>)"
    by (simp add: is_active_def alice_def)
  have t: "pg_text_ok ''9999''" "pg_text_ok ''4821''" "pg_text_ok ''1000''"
    "\<not> pg_text_ok [CHR 0x00]"
    by (simp_all add: pg_text_ok_def)
  have g1: "\<not> list_ex (\<lambda>r. ActivationCode.user_id r = UUID 7 \<and> code r = ''9999'')
         (activation_codes resent_world)"
    by (simp add: resent_world_def alice_code_def alice_code2_def)
  have g2: "find (\<lambda>r. ActivationCode.user_id r = UUID 7 \<and> code r = ''4821'')
         (activation_codes resent_world)
        = Some (alice_code\<lparr>is_used := True, used_at := Some 200\<rparr>)"
    by (simp add: resent_world_def alice_code_def alice_code2_def)
  have g3: "find (\<lambda>r. ActivationCode.user_id r = UUID 7 \<and> code r = ''1000'')
         (activation_codes resent_world) = Some alice_code2"
    by (simp add: resent_world_def alice_code_def alice_code2_def)
  have p2: "is_used (alice_code\<lparr>is_used := True, used_at := Some 200\<rparr>)
     \<and> expires_at (alice_code\<lparr>is_used := True, used_at := Some 200\<rparr>) \<le> 70000000"
    by (simp add: alice_code_def)
  have p3: "\<not> is_used alice_code2 \<and> expires_at alice_code2 \<le> 70000000"
    by (simp add: alice_code2_def)
  from used_checked_before_expired [OF alice_authenticates_resent na, of "''9999''"]
    used_checked_before_expired [OF alice_authenticates_resent na, of "''4821''"]
    used_checked_before_expired [OF alice_authenticates_resent na, of "''1000''"]
    used_checked_before_expired [OF alice_authenticates_resent na, of "[CHR 0x00]"]
    alice_authenticates_resent [of 70000000] na t g1 g2 g3 p2 p3
  show ?thesis unfolding uid by blast
qed

subsection \<open>A successful activation\<close>

lemma update_user_status_users:
  "users (snd (update_user_status w uid st a_at now)) =
     map (\<lambda>r. if User.user_id r = uid
              then r\<lparr>status := st, updated_at := now, activated_at := a_at\<rparr> else r) (users w)"
  by (simp add: update_user_status_def Let_def split: sum.splits)

lemma find_email_after_update:
  "find (\<lambda>r. email r = em)
     (map (\<lambda>r. if User.user_id r = uid
               then r\<lparr>status := st, updated_at := now, activated_at := a_at\<rparr> else r) xs)
   = map_option (\<lambda>r. if User.user_id r = uid
               then r\<lparr>status := st, updated_at := now, activated_at := a_at\<rparr> else r)
       (find (\<lambda>r. email r = em) xs)"
  by (rule find_map_preserve) simp

lemma find_id_after_update:
  "find (\<lambda>r. User.user_id r = i)
     (map (\<lambda>r. if User.user_id r = uid
               then r\<lparr>status := st, updated_at := now, activated_at := a_at\<rparr> else r) xs)
   = map_option (\<lambda>r. if User.user_id r = uid
               then r\<lparr>status := st, updated_at := now, activated_at := a_at\<rparr> else r)
       (find (\<lambda>r. User.user_id r = i) xs)"
  by (rule find_map_preserve) simp

lemma find_code_after_mark:
  "find (\<lambda>r. ActivationCode.user_id r = uid \<and> code r = cd)
     (map (\<lambda>r. if ActivationCode.user_id r = uid' \<and> code r = cd'
               then r\<lparr>is_used := True, used_at := Some now\<rparr> else r) xs)
   = map_option (\<lambda>r. if ActivationCode.user_id r = uid' \<and> code r = cd'
               then r\<lparr>is_used := True, used_at := Some now\<rparr> else r)
       (find (\<lambda>r. ActivationCode.user_id r = uid \<and> code r = cd) xs)"
  by (rule find_map_preserve) simp

lemma find_by_id_of_row:
  assumes "world_ok w" and "find P (users w) = Some r"
  shows "find (\<lambda>x. User.user_id x = User.user_id r) (users w) = Some r"
proof -
  from assms(1) have "distinct (map User.user_id (users w))" by (simp add: world_ok_def)
  moreover from assms(2) have "r \<in> set (users w)" using find_Some_holds by fastforce
  ultimately show ?thesis by (rule find_distinct_key)
qed

lemma update_user_status_ok:
  assumes ok: "world_ok w" and found: "find P (users w) = Some r"
  shows "update_user_status w (User.user_id r) st a_at now =
           (Inr (r\<lparr>status := st, updated_at := now, activated_at := a_at\<rparr>),
            w\<lparr>users := map (\<lambda>x. if User.user_id x = User.user_id r
                       then x\<lparr>status := st, updated_at := now, activated_at := a_at\<rparr>
                       else x) (users w)\<rparr>)"
proof -
  have v: "validate_email (email r) = Inr ()" using ok found by (rule users_valid_find)
  have f: "find (\<lambda>x. User.user_id x = User.user_id r) (users w) = Some r"
    using ok found by (rule find_by_id_of_row)
  have "row_to_User (r\<lparr>status := st, updated_at := now, activated_at := a_at\<rparr>) now
          = Inr (r\<lparr>status := st, updated_at := now, activated_at := a_at\<rparr>)"
    using v by (simp add: row_to_User_def User_init_def)
  then show ?thesis
    by (simp add: update_user_status_def Let_def get_user_by_id_def find_id_after_update f)
qed


text \<open>
  Claim C1 as stated fails in its last part: after a successful activation the user is
  \<open>ACTIVE\<close>, and a second \<open>activate_user\<close> with the same code stops at the
  \<open>is_active\<close> check with \<open>UserAlreadyActivatedException\<close>; the code check is not
  reached.
\<close>

theorem second_activation_counterexample:
  "activate_user toy_checkpw pending_world ''a@x.com'' ''pass1234'' ''4821'' 200
     = (Inr (alice\<lparr>status := ACTIVE, updated_at := 200, activated_at := Some 200\<rparr>), active_world)
   \<and> activate_user toy_checkpw active_world ''a@x.com'' ''pass1234'' ''4821'' 300
     = (Inl UserAlreadyActivatedException, active_world)
   \<and> UserAlreadyActivatedException \<noteq> InvalidActivationCodeException"
proof -
  have f: "find (\<lambda>r. email r = ''a@x.com'') (users pending_world) = Some alice"
    by (simp add: pending_world_def alice_def)
  have uid: "User.user_id alice = UUID 7" by (simp add: alice_def)
  have vc: "verify_activation_code pending_world (UUID 7) ''4821'' 200 = Inr ()"
    by (simp add: verify_activation_code_def get_activation_code_find pg_text_ok_def
        pending_world_def alice_code_def is_expired_def)
  have up: "update_user_status pending_world (UUID 7) ACTIVE (Some 200) 200 =
      (Inr (alice\<lparr>status := ACTIVE, updated_at := 200, activated_at := Some 200\<rparr>),
       pending_world\<lparr>users := [alice\<lparr>status := ACTIVE, updated_at := 200, activated_at := Some 200\<rparr>]\<rparr>)"
    using update_user_status_ok [OF pending_world_ok f, of ACTIVE "Some 200" 200]
    by (simp add: uid) (simp add: pending_world_def alice_def)
  have first: "activate_user toy_checkpw pending_world ''a@x.com'' ''pass1234'' ''4821'' 200
     = (Inr (alice\<lparr>status := ACTIVE, updated_at := 200, activated_at := Some 200\<rparr>), active_world)"
    by (simp add: activate_user_def alice_authenticates is_active_def uid vc up)
       (simp add: alice_def mark_code_as_used_def pending_world_def active_world_def alice_code_def)
  have f2: "find (\<lambda>r. email r = ''a@x.com'') (users active_world)
     = Some (alice\<lparr>status := ACTIVE, updated_at := 200, activated_at := Some 200\<rparr>)"
    by (simp add: active_world_def alice_def)
  have v2: "verify_password toy_checkpw
        (alice\<lparr>status := ACTIVE, updated_at := 200, activated_at := Some 200\<rparr>) ''pass1234''"
    by (simp add: verify_password_def toy_checkpw_def alice_def)
  have v: "validate_email (email (alice\<lparr>status := ACTIVE, updated_at := 200, activated_at := Some 200\<rparr>)) = Inr ()"
    by (simp add: alice_def alice_email_valid)
  have second: "activate_user toy_checkpw active_world ''a@x.com'' ''pass1234'' ''4821'' 300
     = (Inl UserAlreadyActivatedException, active_world)"
    by (simp add: activate_user_def authenticate_user_found [OF f2 v] v2 is_active_def)
  from first second show ?thesis by simp
qed

text \<open>
  Claim C1, amended. For a \<open>PENDING\<close> user with the right password and a row for
  (user id, code) that is unused and not expired, \<open>activate_user\<close> returns the user
  with status \<open>ACTIVE\<close> and \<open>activated_at\<close> set to the time of the call; the
  user's row in the store carries the same status and timestamp, and the code's row
  has \<open>is_used\<close> true. Afterwards the code no longer verifies
  (\<open>InvalidActivationCodeException\<close>), and a second \<open>activate_user\<close> with the same
  credentials and code raises \<open>UserAlreadyActivatedException\<close>.
\<close>

theorem activate_user_success:
  assumes ok: "world_ok w"
    and found: "find (\<lambda>x. email x = em) (users w) = Some r"
    and pending: "status r = PENDING"
    and pw_ok: "verify_password checkpw r pw"
    and code_row: "get_activation_code w (User.user_id r) cd now = Inr (Some c)"
    and unused: "\<not> is_used c"
    and fresh: "now < expires_at c"
  shows "\<exists>u' w'. activate_user checkpw w em pw cd now = (Inr u', w')
       \<and> u' = r\<lparr>status := ACTIVE, updated_at := now, activated_at := Some now\<rparr>
       \<and> status u' = ACTIVE \<and> activated_at u' = Some now
       \<and> find (\<lambda>x. email x = em) (users w') = Some u'
       \<and> get_activation_code w' (User.user_id r) cd now'
            = Inr (Some (c\<lparr>is_used := True, used_at := Some now\<rparr>))
       \<and> verify_activation_code w' (User.user_id r) cd now' = Inl InvalidActivationCodeException
       \<and> activate_user checkpw w' em pw cd now' = (Inl UserAlreadyActivatedException, w')"
proof -
  define upd where "upd = (\<lambda>x::User. if User.user_id x = User.user_id r
      then x\<lparr>status := ACTIVE, updated_at := now, activated_at := Some now\<rparr> else x)"
  define u' where "u' = r\<lparr>status := ACTIVE, updated_at := now, activated_at := Some now\<rparr>"
  define w1 where "w1 = w\<lparr>users := map upd (users w)\<rparr>"
  define w' where "w' = mark_code_as_used w1 (User.user_id r) cd now"
  have v: "validate_email (email r) = Inr ()" using ok found by (rule users_valid_find)
  have auth: "authenticate_user checkpw w em pw now = Inr (r\<lparr>updated_at := now\<rparr>)"
    using found v pw_ok by (simp add: authenticate_user_found)
  have vc: "verify_activation_code w (User.user_id r) cd now = Inr ()"
    using code_row unused fresh by (simp add: verify_activation_code_some)
  have up: "update_user_status w (User.user_id r) ACTIVE (Some now) now = (Inr u', w1)"
    using update_user_status_ok [OF ok found, of ACTIVE "Some now" now]
    by (simp add: u'_def w1_def upd_def)
  have run: "activate_user checkpw w em pw cd now = (Inr u', w')"
    using pending by (simp add: activate_user_def auth is_active_def vc up w'_def)
  have users': "users w' = map upd (users w)"
    by (simp add: w'_def w1_def mark_code_as_used_def)
  have f': "find (\<lambda>x. email x = em) (users w') = Some u'"
    using found
    by (simp add: users' upd_def find_email_after_update u'_def)
  have codes': "activation_codes w' =
      map (\<lambda>x. if ActivationCode.user_id x = User.user_id r \<and> code x = cd
                then x\<lparr>is_used := True, used_at := Some now\<rparr> else x) (activation_codes w)"
    by (simp add: w'_def w1_def mark_code_as_used_def)
  from code_row have tx: "pg_text_ok cd"
    and fc: "find (\<lambda>x. ActivationCode.user_id x = User.user_id r \<and> code x = cd)
      (activation_codes w) = Some c"
    using get_activation_code_Inr [of w "User.user_id r" cd now "Some c"] by simp_all
  then have pc: "ActivationCode.user_id c = User.user_id r \<and> code c = cd"
    using find_Some_holds [of "\<lambda>x. ActivationCode.user_id x = User.user_id r \<and> code x = cd"]
    by blast
  have g': "get_activation_code w' (User.user_id r) cd now'
            = Inr (Some (c\<lparr>is_used := True, used_at := Some now\<rparr>))"
    using fc pc by (simp add: get_activation_code_find [OF tx] codes' find_code_after_mark)
  have vc': "verify_activation_code w' (User.user_id r) cd now' = Inl InvalidActivationCodeException"
    by (simp add: verify_activation_code_some [OF g'])
  have v': "validate_email (email u') = Inr ()" using v by (simp add: u'_def)
  have pw': "verify_password checkpw u' pw" using pw_ok by (simp add: verify_password_def u'_def)
  have again: "activate_user checkpw w' em pw cd now' = (Inl UserAlreadyActivatedException, w')"
    by (simp add: activate_user_def authenticate_user_found [OF f' v'] pw' is_active_def)
       (simp add: u'_def)
  have "status u' = ACTIVE \<and> activated_at u' = Some now" by (simp add: u'_def)
  with run f' g' vc' again u'_def show ?thesis by blast
qed

theorem activate_user_success_witness:
  "world_ok pending_world
   \<and> find (\<lambda>x. email x = ''a@x.com'') (users pending_world) = Some alice
   \<and> status alice = PENDING
   \<and> verify_password toy_checkpw alice ''pass1234''
   \<and> get_activation_code pending_world (User.user_id alice) ''4821'' 200 = Inr (Some alice_code)
   \<and> \<not> is_used alice_code \<and> 200 < expires_at alice_code
   \<and> (\<exists>u' w'. activate_user toy_checkpw pending_world ''a@x.com'' ''pass1234'' ''4821'' 200 = (Inr u', w')
       \<and> status u' = ACTIVE \<and> activated_at u' = Some 200
       \<and> find (\<lambda>x. email x = ''a@x.com'') (users w') = Some u'
       \<and> get_activation_code w' (User.user_id alice) ''4821'' 300
            = Inr (Some (alice_code\<lparr>is_used := True, used_at := Some 200\<rparr>))
       \<and> activate_user toy_checkpw w' ''a@x.com'' ''pass1234'' ''4821'' 300
            = (Inl UserAlreadyActivatedException, w'))"
proof -
  have f: "find (\<lambda>x. email x = ''a@x.com'') (users pending_world) = Some alice"
    by (simp add: pending_world_def alice_def)
  have p: "status alice = PENDING" by (simp add: alice_def)
  have v: "verify_password toy_checkpw alice ''pass1234''"
    by (simp add: verify_password_def toy_checkpw_def alice_def)
  have g: "get_activation_code pending_world (User.user_id alice) ''4821'' 200 = Inr (Some alice_code)"
    by (simp add: get_activation_code_find pg_text_ok_def pending_world_def alice_code_def alice_def)
  have u: "\<not> is_used alice_code" by (simp add: alice_code_def)
  have e: "200 < expires_at alice_code" by (simp add: alice_code_def)
  from activate_user_success [OF pending_world_ok f p v g u e, of 300]
  show ?thesis using pending_world_ok f p v g u e by blast
qed


subsection \<open>Decimal digits and generated codes\<close>

lemma of_char_digit_char: "(of_char (digit_char d) :: nat) = 48 + d mod 10"
proof -
  define k where "k = d mod 10"
  have "k < 10" by (simp add: k_def)
  then have "k \<in> {0, 1, 2, 3, 4, 5, 6, 7, 8, 9}" by auto
  then have "(of_char (''0123456789'' ! k) :: nat) = 48 + k"
    by (elim insertE emptyE) simp_all
  then show ?thesis by (simp add: digit_char_def k_def)
qed

lemma ascii_digit_digit_char: "ascii_digit (digit_char d)"
  by (simp add: ascii_digit_def in_range_def of_char_digit_char)

lemma digit_val_digit_char: "digit_val (digit_char d) = d mod 10"
  by (simp add: digit_val_def of_char_digit_char)

lemma digit_char_zero_iff: "digit_char d = CHR ''0'' \<longleftrightarrow> d mod 10 = 0"
proof
  assume "digit_char d = CHR ''0''"
  then have "(of_char (digit_char d) :: nat) = of_char CHR ''0''" by simp
  then show "d mod 10 = 0" by (simp add: of_char_digit_char)
next
  assume "d mod 10 = 0"
  then show "digit_char d = CHR ''0''" by (simp add: digit_char_def)
qed

lemma str_nat_four_digits:
  assumes "1000 \<le> n" and "n \<le> 9999"
  shows "str_nat n = [digit_char (n div 1000), digit_char (n div 100), digit_char (n div 10),
                      digit_char n]"
proof -
  have n1: "\<not> n < 10" using assms by simp
  have n2: "\<not> n div 10 < 10" using assms by (simp add: div_less_iff_less_mult)
  have n3: "\<not> n div 100 < 10" using assms by (simp add: div_less_iff_less_mult)
  have n4: "n div 1000 < 10" using assms by (simp add: div_less_iff_less_mult)
  have e2: "n div 10 div 10 = n div 100" using div_mult2_eq [of n 10 10] by simp
  have e3: "n div 100 div 10 = n div 1000" using div_mult2_eq [of n 100 10] by simp
  have a: "str_nat n = str_nat (n div 10) @ [digit_char (n mod 10)]"
    using n1 str_nat.simps [of n] by simp
  have b: "str_nat (n div 10) = str_nat (n div 100) @ [digit_char (n div 10 mod 10)]"
    using n2 e2 str_nat.simps [of "n div 10"] by simp
  have c: "str_nat (n div 100) = str_nat (n div 1000) @ [digit_char (n div 100 mod 10)]"
    using n3 e3 str_nat.simps [of "n div 100"] by simp
  have d: "str_nat (n div 1000) = [digit_char (n div 1000)]"
    using n4 str_nat.simps [of "n div 1000"] by simp
  have m: "\<And>k. digit_char (k mod 10) = digit_char k" by (simp add: digit_char_def)
  show ?thesis by (simp add: a b c d m)
qed

lemma randint_bounds: "a \<le> b \<Longrightarrow> a \<le> randint a b seed \<and> randint a b seed \<le> b"
proof -
  assume "a \<le> b"
  then have "0 < nat (b - a + 1)" by simp
  then have "seed mod nat (b - a + 1) < nat (b - a + 1)" by (rule mod_less_divisor)
  then have "int (seed mod nat (b - a + 1)) < int (nat (b - a + 1))" by (rule iffD2 [OF of_nat_less_iff])
  moreover have "int (nat (b - a + 1)) = b - a + 1" using \<open>a \<le> b\<close> by simp
  ultimately have "int (seed mod nat (b - a + 1)) \<le> b - a" by linarith
  then show ?thesis by (simp add: randint_def)
qed

lemma randint_onto: "a \<le> n \<Longrightarrow> n \<le> b \<Longrightarrow> randint a b (nat (n - a)) = n"
  by (simp add: randint_def)

lemma format_04d_four_digits:
  assumes "1000 \<le> n" and "n \<le> 9999"
  shows "format_04d n = [digit_char (nat n div 1000), digit_char (nat n div 100),
                         digit_char (nat n div 10), digit_char (nat n)]"
proof -
  have "1000 \<le> nat n" and "nat n \<le> 9999" using assms by simp_all
  then have "str_nat (nat n) = [digit_char (nat n div 1000), digit_char (nat n div 100),
                         digit_char (nat n div 10), digit_char (nat n)]"
    by (rule str_nat_four_digits)
  with assms show ?thesis by (simp add: format_04d_def zero_pad_def)
qed

lemma format_04d_leading_digit:
  assumes "1000 \<le> n" and "n \<le> 9999"
  shows "hd (format_04d n) \<noteq> CHR ''0''"
proof -
  have "1 \<le> nat n div 1000" and "nat n div 1000 \<le> 9" using assms by simp_all
  then have "(nat n div 1000) mod 10 \<noteq> 0" by simp
  then show ?thesis
    by (simp add: format_04d_four_digits [OF assms] digit_char_zero_iff)
qed

text \<open>
  Claim C7 as stated fails: the number comes from \<open>random.randint(1000, 9999)\<close>, so no
  code begins with \<open>0\<close>, and \<open>0000\<close> is never generated.
\<close>

theorem code_0000_never_generated_counterexample:
  "\<not> (\<exists>seed t_gen t_init. code (generate_for_user (UUID 7) seed t_gen t_init) = ''0000'')"
proof
  assume "\<exists>seed t_gen t_init. code (generate_for_user (UUID 7) seed t_gen t_init) = ''0000''"
  then obtain seed where "format_04d (randint 1000 9999 seed) = ''0000''"
    by (auto simp: generate_for_user_def ActivationCode_init_def)
  moreover have "hd (format_04d (randint 1000 9999 seed)) \<noteq> CHR ''0''"
    using randint_bounds [of 1000 9999 seed] by (simp add: format_04d_leading_digit)
  ultimately show False by simp
qed

text \<open>
  Claim C7, amended. \<open>generate_for_user\<close> returns a code of exactly four decimal digits,
  the decimal text of a number between 1000 and 9999, so its first digit is not \<open>0\<close>;
  every number from 1000 to 9999 is a possible code. \<open>is_used\<close> is false, \<open>used_at\<close> is
  empty, and \<open>expires_at\<close> is exactly 60 seconds after the clock reading taken when the
  code is generated; \<open>created_at\<close> is the constructor's own reading, so the two are 60
  seconds apart when the clock gave the same reading twice.
\<close>

theorem generate_for_user_code:
  "ActivationCode.user_id (generate_for_user uid seed t_gen t_init) = uid
   \<and> code (generate_for_user uid seed t_gen t_init) = format_04d (randint 1000 9999 seed)
   \<and> 1000 \<le> randint 1000 9999 seed \<and> randint 1000 9999 seed \<le> 9999
   \<and> length (code (generate_for_user uid seed t_gen t_init)) = 4
   \<and> list_all ascii_digit (code (generate_for_user uid seed t_gen t_init))
   \<and> hd (code (generate_for_user uid seed t_gen t_init)) \<noteq> CHR ''0''
   \<and> (\<forall>n. 1000 \<le> n \<and> n \<le> 9999 \<longrightarrow>
         (\<exists>seed'. code (generate_for_user uid seed' t_gen t_init) = format_04d n))
   \<and> is_used (generate_for_user uid seed t_gen t_init) = False
   \<and> used_at (generate_for_user uid seed t_gen t_init) = None
   \<and> expires_at (generate_for_user uid seed t_gen t_init) = t_gen + timedelta_seconds 60
   \<and> ActivationCode.created_at (generate_for_user uid seed t_gen t_init) = t_init
   \<and> (t_init = t_gen \<longrightarrow>
        expires_at (generate_for_user uid seed t_gen t_init)
          = ActivationCode.created_at (generate_for_user uid seed t_gen t_init)
            + timedelta_seconds 60)"
proof -
  let ?n = "randint 1000 9999 seed"
  have b: "1000 \<le> ?n \<and> ?n \<le> 9999" using randint_bounds [of 1000 9999 seed] by simp
  then have b1: "1000 \<le> ?n" and b2: "?n \<le> 9999" by simp_all
  have cd: "code (generate_for_user uid seed t_gen t_init) = format_04d ?n"
    by (simp add: generate_for_user_def ActivationCode_init_def)
  have len: "length (format_04d ?n) = 4"
    by (simp add: format_04d_four_digits [OF b1 b2])
  have dig: "list_all ascii_digit (format_04d ?n)"
    by (simp add: format_04d_four_digits [OF b1 b2] ascii_digit_digit_char)
  have lead: "hd (format_04d ?n) \<noteq> CHR ''0''"
    using b1 b2 by (rule format_04d_leading_digit)
  have onto: "\<forall>n. 1000 \<le> n \<and> n \<le> 9999 \<longrightarrow>
         (\<exists>seed'. code (generate_for_user uid seed' t_gen t_init) = format_04d n)"
  proof (intro allI impI)
    fix n :: int
    assume "1000 \<le> n \<and> n \<le> 9999"
    then have "randint 1000 9999 (nat (n - 1000)) = n" by (simp add: randint_onto)
    then have "code (generate_for_user uid (nat (n - 1000)) t_gen t_init) = format_04d n"
      by (simp add: generate_for_user_def ActivationCode_init_def)
    then show "\<exists>seed'. code (generate_for_user uid seed' t_gen t_init) = format_04d n" ..
  qed
  have rest: "ActivationCode.user_id (generate_for_user uid seed t_gen t_init) = uid
     \<and> is_used (generate_for_user uid seed t_gen t_init) = False
     \<and> used_at (generate_for_user uid seed t_gen t_init) = None
     \<and> expires_at (generate_for_user uid seed t_gen t_init) = t_gen + timedelta_seconds 60
     \<and> ActivationCode.created_at (generate_for_user uid seed t_gen t_init) = t_init"
    by (simp add: generate_for_user_def ActivationCode_init_def timedelta_minutes_def
        timedelta_seconds_def)
  have same: "t_init = t_gen \<longrightarrow>
        expires_at (generate_for_user uid seed t_gen t_init)
          = ActivationCode.created_at (generate_for_user uid seed t_gen t_init)
            + timedelta_seconds 60"
    by (simp add: generate_for_user_def ActivationCode_init_def timedelta_minutes_def
        timedelta_seconds_def)
  from len dig lead have shape: "length (code (generate_for_user uid seed t_gen t_init)) = 4
     \<and> list_all ascii_digit (code (generate_for_user uid seed t_gen t_init))
     \<and> hd (code (generate_for_user uid seed t_gen t_init)) \<noteq> CHR ''0''"
    by (simp add: cd)
  from rest cd b shape onto same show ?thesis by blast
qed

theorem generate_for_user_code_witness:
  "(1000 \<le> (4821::int) \<and> (4821::int) \<le> 9999)
   \<and> (\<exists>seed'. code (generate_for_user (UUID 7) seed' 100 100) = format_04d 4821)
   \<and> format_04d 4821 = ''4821''
   \<and> code (generate_for_user (UUID 7) 3821 100 100) = ''4821''
   \<and> expires_at (generate_for_user (UUID 7) 3821 100 100) = 60000100
   \<and> expires_at (generate_for_user (UUID 7) 3821 100 100)
       = ActivationCode.created_at (generate_for_user (UUID 7) 3821 100 100) + timedelta_seconds 60"
proof -
  have f: "format_04d 4821 = ''4821''"
    by (simp add: format_04d_four_digits digit_char_def)
  have r: "randint 1000 9999 3821 = 4821" by (simp add: randint_def)
  have i: "1000 \<le> (4821::int) \<and> (4821::int) \<le> 9999" by simp
  from generate_for_user_code [of "UUID 7" 3821 100 100]
  have ex: "1000 \<le> (4821::int) \<and> (4821::int) \<le> 9999 \<longrightarrow>
      (\<exists>seed'. code (generate_for_user (UUID 7) seed' 100 100) = format_04d 4821)"
    by blast
  from generate_for_user_code [of "UUID 7" 3821 100 100]
  have c: "code (generate_for_user (UUID 7) 3821 100 100) = ''4821''"
    and e: "expires_at (generate_for_user (UUID 7) 3821 100 100) = 60000100"
    and s: "expires_at (generate_for_user (UUID 7) 3821 100 100)
       = ActivationCode.created_at (generate_for_user (UUID 7) 3821 100 100) + timedelta_seconds 60"
    by (simp_all add: f r timedelta_seconds_def)
  from i ex f c e s show ?thesis by blast
qed


subsection \<open>The sweep of expired and used codes\<close>

lemma str_nat_digits: "str_nat n \<noteq> [] \<and> list_all ascii_digit (str_nat n)"
proof (induction n rule: str_nat.induct)
  case (1 n)
  show ?case
  proof (cases "n < 10")
    case True
    then show ?thesis using str_nat.simps [of n] by (simp add: ascii_digit_digit_char)
  next
    case False
    with "1" show ?thesis using str_nat.simps [of n] by (simp add: ascii_digit_digit_char)
  qed
qed

lemma foldl_str_nat: "foldl (\<lambda>a c. 10 * a + digit_val c) 0 (str_nat n) = n"
proof (induction n rule: str_nat.induct)
  case (1 n)
  show ?case
  proof (cases "n < 10")
    case True
    then show ?thesis using str_nat.simps [of n] by (simp add: digit_val_digit_char)
  next
    case False
    with "1" show ?thesis using str_nat.simps [of n] by (simp add: digit_val_digit_char)
  qed
qed

lemma py_int_str_nat: "py_int (str_nat n) = Some n"
  by (simp add: py_int_def str_nat_digits foldl_str_nat)

lemma ascii_digit_not_space: "ascii_digit c \<Longrightarrow> \<not> isspace c"
  by (auto simp: ascii_digit_def isspace_def in_range_def)

lemma ascii_digit_isdigit: "ascii_digit c \<Longrightarrow> isdigit c"
  by (simp add: isdigit_def)

lemma split_acc_word:
  "list_all (\<lambda>c. \<not> isspace c) ds \<Longrightarrow> w @ ds \<noteq> [] \<Longrightarrow> split_acc ds w = [w @ ds]"
  by (induction ds arbitrary: w) simp_all

lemma str_split_delete_tag:
  assumes "ds \<noteq> []" and "list_all ascii_digit ds"
  shows "str_split (''DELETE '' @ ds) = [''DELETE'', ds]"
proof -
  have ns: "list_all (\<lambda>c. \<not> isspace c) ds"
    using assms(2) by (induction ds) (simp_all add: ascii_digit_not_space)
  have "split_acc ds [] = [ds]" using split_acc_word [OF ns, of "[]"] assms(1) by simp
  then show ?thesis
    by (simp add: str_split_def isspace_def in_range_def)
qed

lemma count_of_tag_delete: "count_of_tag (''DELETE '' @ str_nat n) = Inr n"
proof -
  have d: "str_nat n \<noteq> []" "list_all ascii_digit (str_nat n)"
    using str_nat_digits [of n] by simp_all
  have "list_all isdigit (str_nat n)"
    using d(2) by (induction "str_nat n") (simp_all add: list_all_iff ascii_digit_isdigit)
  then have "str_isdigit (str_nat n)" using d(1) by (simp add: str_isdigit_def)
  then show ?thesis
    unfolding count_of_tag_def str_split_delete_tag [OF d]
    by (simp add: py_int_str_nat)
qed

lemma cleanup_expired_codes_eq:
  "cleanup_expired_codes w now =
     (Inr (length (filter (sweepable now) (activation_codes w))),
      w\<lparr>activation_codes := filter (\<lambda>r. \<not> sweepable now r) (activation_codes w)\<rparr>)"
proof -
  have "count_of_tag (fst (delete_expired_or_used w now))
          = Inr (length (filter (sweepable now) (activation_codes w)))"
    unfolding delete_expired_or_used_def fst_conv by (rule count_of_tag_delete)
  then show ?thesis
    by (simp add: cleanup_expired_codes_def split_beta) (simp add: delete_expired_or_used_def)
qed


text \<open>
  Claim C8. \<open>cleanup_expired_codes\<close> removes exactly the code rows with
  \<open>expires_at < now\<close> or \<open>is_used\<close> true, keeps every other row and the rest of the
  store, and returns the number of rows removed; run again on the result, at the same
  time or at any time at which no remaining row qualifies, it removes nothing and
  returns 0.
\<close>

theorem cleanup_expired_codes_exact:
  "cleanup_expired_codes w now =
     (Inr (length (filter (\<lambda>r. expires_at r < now \<or> is_used r) (activation_codes w))),
      w\<lparr>activation_codes :=
           filter (\<lambda>r. \<not> (expires_at r < now \<or> is_used r)) (activation_codes w)\<rparr>)
   \<and> cleanup_expired_codes (snd (cleanup_expired_codes w now)) now
       = (Inr 0, snd (cleanup_expired_codes w now))
   \<and> (\<forall>now2. list_all (\<lambda>r. \<not> (expires_at r < now2 \<or> is_used r))
                 (activation_codes (snd (cleanup_expired_codes w now))) \<longrightarrow>
         cleanup_expired_codes (snd (cleanup_expired_codes w now)) now2
           = (Inr 0, snd (cleanup_expired_codes w now)))"
proof -
  have sw: "sweepable = (\<lambda>t r. expires_at r < t \<or> is_used r)"
    by (intro ext) (simp add: sweepable_def)
  have first: "cleanup_expired_codes w now =
     (Inr (length (filter (\<lambda>r. expires_at r < now \<or> is_used r) (activation_codes w))),
      w\<lparr>activation_codes :=
           filter (\<lambda>r. \<not> (expires_at r < now \<or> is_used r)) (activation_codes w)\<rparr>)"
    by (simp add: cleanup_expired_codes_eq sw)
  have again: "cleanup_expired_codes w' t = (Inr 0, w')"
    if "list_all (\<lambda>r. \<not> (expires_at r < t \<or> is_used r)) (activation_codes w')" for w' t
  proof -
    from that have none: "filter (\<lambda>r. expires_at r < t \<or> is_used r) (activation_codes w') = []"
      by (simp add: list_all_iff filter_empty_conv)
    from that have all: "filter (\<lambda>r. \<not> (expires_at r < t \<or> is_used r)) (activation_codes w')
        = activation_codes w'"
      by (simp add: list_all_iff)
    show ?thesis
      by (simp add: cleanup_expired_codes_eq sw none all del: not_less de_Morgan_disj)
  qed
  have kept: "list_all (\<lambda>r. \<not> (expires_at r < now \<or> is_used r))
                (activation_codes (snd (cleanup_expired_codes w now)))"
    by (simp add: first list_all_iff)
  from first again [OF kept] again show ?thesis by blast
qed

theorem cleanup_expired_codes_exact_witness:
  "cleanup_expired_codes resent_world 300
     = (Inr 1, resent_world\<lparr>activation_codes := [alice_code2]\<rparr>)
   \<and> list_all (\<lambda>r. \<not> (expires_at r < 400 \<or> is_used r))
        (activation_codes (snd (cleanup_expired_codes resent_world 300)))
   \<and> cleanup_expired_codes (snd (cleanup_expired_codes resent_world 300)) 400
       = (Inr 0, resent_world\<lparr>activation_codes := [alice_code2]\<rparr>)"
proof -
  have c: "cleanup_expired_codes resent_world 300
     = (Inr 1, resent_world\<lparr>activation_codes := [alice_code2]\<rparr>)"
    using cleanup_expired_codes_exact [of resent_world 300]
    by (simp add: resent_world_def alice_code_def alice_code2_def)
  have k: "list_all (\<lambda>r. \<not> (expires_at r < 400 \<or> is_used r))
        (activation_codes (snd (cleanup_expired_codes resent_world 300)))"
    by (simp add: c alice_code2_def)
  from cleanup_expired_codes_exact [of resent_world 300] k
  have "cleanup_expired_codes (snd (cleanup_expired_codes resent_world 300)) 400
       = (Inr 0, snd (cleanup_expired_codes resent_world 300))"
    by blast
  with c k show ?thesis by simp
qed


subsection \<open>Issuing a new code\<close>




lemma insert_activation_code_Some:
  "insert_activation_code w c = Some w' \<Longrightarrow>
     w' = w\<lparr>activation_codes := activation_codes w @ [c\<lparr>used_at := None\<rparr>]\<rparr>
     \<and> pg_text_ok (code c)"
  by (simp add: insert_activation_code_def split: if_splits)







subsection \<open>Creating a user\<close>

lemma find_Some_list_ex: "find P xs = Some x \<Longrightarrow> list_ex P xs"
  by (induction xs) (auto split: if_splits)

text \<open>
  Claim C5 as stated fails: the existence check and the insert are two statements, and
  a user with the same e-mail inserted between them makes the insert violate the
  unique constraint, which \<open>create_user\<close> reports as \<open>DatabaseException\<close>, not as
  \<open>EmailAlreadyExistsException\<close>.
\<close>

theorem create_user_race_counterexample:
  "get_user_by_email empty_world ''a@x.com'' False 100 = Inr None
   \<and> users (rival_insert empty_world) = [rival]
   \<and> create_user_between rival_insert toy_hashpw empty_world ''a@x.com'' ''pass1234'' (UUID 8) ''s'' 100
       = (Inl (DatabaseException ''Failed to create user''), rival_insert empty_world)
   \<and> DatabaseException ''Failed to create user'' \<noteq> EmailAlreadyExistsException"
proof -
  have a: "get_user_by_email empty_world ''a@x.com'' False 100 = Inr None"
    by (simp add: get_user_by_email_def empty_world_def)
  have b: "rival_insert empty_world = empty_world\<lparr>users := [rival]\<rparr>"
    by (simp add: rival_insert_def insert_user_def empty_world_def rival_def)
  have i: "User_init ''a@x.com'' (toy_hashpw ''pass1234'' ''s'') PENDING None None None None (UUID 8) 100
      = Inr \<lparr>email = ''a@x.com'', password_hash = toy_hashpw ''pass1234'' ''s'', status = PENDING,
             User.user_id = UUID 8, User.created_at = 100, updated_at = 100, activated_at = None\<rparr>"
    by (simp add: User_init_def alice_email_valid)
  have c: "create_user_insert toy_hashpw (empty_world\<lparr>users := [rival]\<rparr>) ''a@x.com'' ''pass1234''
             (UUID 8) ''s'' 100
       = (Inl (DatabaseException ''Failed to create user''), empty_world\<lparr>users := [rival]\<rparr>)"
    by (simp add: create_user_insert_def i insert_user_def rival_def)
  show ?thesis by (simp add: create_user_between_def a b c)
qed

text \<open>
  Claim C5, amended. If a user with the e-mail exists when the check runs,
  \<open>create_user\<close> raises \<open>EmailAlreadyExistsException\<close> and writes nothing, whatever
  other requests do afterwards. If none exists at the check and one is there when the
  insert runs, a well-formed e-mail gives \<open>DatabaseException\<close> (code \<open>DM_REG_0008\<close>,
  status 500) and this call writes nothing.
\<close>

theorem create_user_existing_email:
  "(world_ok w \<and> find (\<lambda>r. email r = em) (users w) = Some r \<longrightarrow>
      create_user_between other hashpw w em pw uuid4 salt now = (Inl EmailAlreadyExistsException, w)
      \<and> create_user hashpw w em pw uuid4 salt now = (Inl EmailAlreadyExistsException, w))
   \<and> (find (\<lambda>r. email r = em) (users w) = None
        \<and> find (\<lambda>r. email r = em) (users (other w)) = Some r'
        \<and> validate_email em = Inr () \<longrightarrow>
      create_user_between other hashpw w em pw uuid4 salt now
        = (Inl (DatabaseException ''Failed to create user''), other w)
      \<and> err_code (DatabaseException ''Failed to create user'') = DM_REG_0008
      \<and> err_status_code (DatabaseException ''Failed to create user'') = 500)"
proof (intro conjI impI)
  assume h: "world_ok w \<and> find (\<lambda>r. email r = em) (users w) = Some r"
  then have v: "validate_email (email r) = Inr ()" using users_valid_find by blast
  from h v have g: "get_user_by_email w em False now = Inr (Some (r\<lparr>updated_at := now\<rparr>))"
    by (simp add: get_user_by_email_some)
  then show "create_user_between other hashpw w em pw uuid4 salt now = (Inl EmailAlreadyExistsException, w)"
    by (simp add: create_user_between_def)
  from g show "create_user hashpw w em pw uuid4 salt now = (Inl EmailAlreadyExistsException, w)"
    by (simp add: create_user_def create_user_between_def)
next
  assume h: "find (\<lambda>r. email r = em) (users w) = None
        \<and> find (\<lambda>r. email r = em) (users (other w)) = Some r'
        \<and> validate_email em = Inr ()"
  then have g: "get_user_by_email w em False now = Inr None"
    by (simp add: get_user_by_email_def)
  from h have ex: "list_ex (\<lambda>r. email r = em) (users (other w))"
    using find_Some_list_ex by fastforce
  from h have i: "\<exists>u. User_init em (hashpw pw salt) PENDING None None None None uuid4 now = Inr u
      \<and> email u = em"
    by (simp add: User_init_def)
  then obtain u where u: "User_init em (hashpw pw salt) PENDING None None None None uuid4 now = Inr u"
    and eu: "email u = em" by blast
  have "insert_user (other w) u = None" using ex eu by (simp add: insert_user_def)
  with u have "create_user_insert hashpw (other w) em pw uuid4 salt now
      = (Inl (DatabaseException ''Failed to create user''), other w)"
    by (simp add: create_user_insert_def)
  with g show "create_user_between other hashpw w em pw uuid4 salt now
        = (Inl (DatabaseException ''Failed to create user''), other w)"
    by (simp add: create_user_between_def)
qed simp_all

theorem create_user_existing_email_witness:
  "(world_ok pending_world \<and> find (\<lambda>r. email r = ''a@x.com'') (users pending_world) = Some alice)
   \<and> create_user toy_hashpw pending_world ''a@x.com'' ''other5678'' (UUID 8) ''s'' 300
       = (Inl EmailAlreadyExistsException, pending_world)
   \<and> (find (\<lambda>r. email r = ''a@x.com'') (users empty_world) = None
        \<and> find (\<lambda>r. email r = ''a@x.com'') (users (rival_insert empty_world)) = Some rival
        \<and> validate_email ''a@x.com'' = Inr ())
   \<and> create_user_between rival_insert toy_hashpw empty_world ''a@x.com'' ''pass1234'' (UUID 8) ''s'' 100
        = (Inl (DatabaseException ''Failed to create user''), rival_insert empty_world)"
proof -
  have f: "find (\<lambda>r. email r = ''a@x.com'') (users pending_world) = Some alice"
    by (simp add: pending_world_def alice_def)
  have n: "find (\<lambda>r. email r = ''a@x.com'') (users empty_world) = None"
    by (simp add: empty_world_def)
  have r: "find (\<lambda>r. email r = ''a@x.com'') (users (rival_insert empty_world)) = Some rival"
    by (simp add: rival_insert_def insert_user_def empty_world_def rival_def)
  from create_user_existing_email [of pending_world "''a@x.com''" alice "\<lambda>x. x" toy_hashpw
      "''other5678''" "UUID 8" "''s''" 300]
    create_user_existing_email [where w = empty_world and em = "''a@x.com''"
      and other = rival_insert and r' = rival and hashpw = toy_hashpw and pw = "''pass1234''"
      and ?uuid4.0 = "UUID 8" and salt = "''s''" and now = 100]
    pending_world_ok f n r alice_email_valid
  show ?thesis by blast
qed


subsection \<open>Every operation keeps the store well-formed\<close>

lemma world_ok_empty: "world_ok empty_world"
  by (simp add: world_ok_def empty_world_def)

lemma User_init_Inr:
  "User_init em ph st uid c_at u_at a_at uuid4 now = Inr u \<Longrightarrow>
     email u = em \<and> validate_email em = Inr ()"
  by (cases "validate_email em") (auto simp: User_init_def)

lemma insert_user_ok:
  assumes "world_ok w" and "insert_user w u = Some w'" and "validate_email (email u) = Inr ()"
  shows "world_ok w'"
proof -
  from assms(2) have w': "w' = w\<lparr>users := users w @ [u\<lparr>activated_at := None\<rparr>]\<rparr>"
    and n1: "\<not> list_ex (\<lambda>r. User.user_id r = User.user_id u) (users w)"
    and n2: "\<not> list_ex (\<lambda>r. email r = email u) (users w)"
    by (simp_all add: insert_user_def split: if_splits)
  from n1 have i1: "User.user_id u \<notin> User.user_id ` set (users w)"
    by (simp add: list_ex_iff image_iff) metis
  from n2 have i2: "email u \<notin> email ` set (users w)"
    by (simp add: list_ex_iff image_iff) metis
  from assms(1) assms(3) i1 i2 show ?thesis
    unfolding w' world_ok_def by simp
qed

lemma create_user_between_ok:
  assumes "world_ok (other w)" and "world_ok w"
    and "create_user_between other hashpw w em pw uuid4 salt now = (res, w')"
  shows "world_ok w'"
proof (cases "get_user_by_email w em False now")
  case (Inl e)
  with assms show ?thesis by (simp add: create_user_between_def)
next
  case (Inr found)
  show ?thesis
  proof (cases found)
    case (Some x)
    with Inr assms show ?thesis by (simp add: create_user_between_def)
  next
    case None
    with Inr assms(3)
    have ins: "create_user_insert hashpw (other w) em pw uuid4 salt now = (res, w')"
      by (simp add: create_user_between_def)
    show ?thesis
    proof (cases "User_init em (hashpw pw salt) PENDING None None None None uuid4 now")
      case (Inl e)
      with ins assms(1) show ?thesis by (simp add: create_user_insert_def)
    next
      case u: (Inr u)
      then have v: "validate_email (email u) = Inr ()" using User_init_Inr by fastforce
      show ?thesis
      proof (cases "insert_user (other w) u")
        case None
        with u ins assms(1) show ?thesis by (simp add: create_user_insert_def)
      next
        case (Some w2)
        with u ins have "w' = w2" by (simp add: create_user_insert_def)
        with insert_user_ok [OF assms(1) Some v] show ?thesis by simp
      qed
    qed
  qed
qed

lemma create_user_ok:
  "world_ok w \<Longrightarrow> create_user hashpw w em pw uuid4 salt now = (res, w') \<Longrightarrow> world_ok w'"
  unfolding create_user_def using create_user_between_ok [of "\<lambda>x. x"] by simp

lemma update_user_status_world_ok:
  assumes "world_ok w" and "update_user_status w uid st a_at now = (res, w')"
  shows "world_ok w'"
proof -
  let ?g = "\<lambda>r::User. if User.user_id r = uid
                then r\<lparr>status := st, updated_at := now, activated_at := a_at\<rparr> else r"
  have w': "w' = w\<lparr>users := map ?g (users w)\<rparr>"
    using assms(2) by (auto simp: update_user_status_def Let_def split: sum.splits)
  have ids: "map User.user_id (map ?g (users w)) = map User.user_id (users w)"
    and ems: "map email (map ?g (users w)) = map email (users w)"
    by (simp_all add: comp_def if_distrib cong: if_cong)
  have val: "list_all (\<lambda>r. validate_email (email r) = Inr ()) (map ?g (users w))"
    using assms(1) by (auto simp: world_ok_def list_all_iff)
  from assms(1) ids ems val show ?thesis
    unfolding w' world_ok_def by (simp del: map_map)
qed

lemma mark_code_as_used_ok: "world_ok w \<Longrightarrow> world_ok (mark_code_as_used w uid cd now)"
proof -
  assume ok: "world_ok w"
  let ?h = "\<lambda>r::ActivationCode. if ActivationCode.user_id r = uid \<and> code r = cd
                  then r\<lparr>is_used := True, used_at := Some now\<rparr> else r"
  have "map (\<lambda>r. (ActivationCode.user_id r, code r)) (map ?h (activation_codes w))
          = map (\<lambda>r. (ActivationCode.user_id r, code r)) (activation_codes w)"
    by (simp add: comp_def if_distrib cong: if_cong)
  with ok show ?thesis
    unfolding world_ok_def mark_code_as_used_def by (simp del: map_map)
qed

lemma invalidate_user_codes_ok: "world_ok w \<Longrightarrow> world_ok (invalidate_user_codes w uid now)"
proof -
  assume ok: "world_ok w"
  let ?h = "\<lambda>r::ActivationCode. if ActivationCode.user_id r = uid \<and> is_used r = False
                  then r\<lparr>is_used := True, used_at := Some now\<rparr> else r"
  have "map (\<lambda>r. (ActivationCode.user_id r, code r)) (map ?h (activation_codes w))
          = map (\<lambda>r. (ActivationCode.user_id r, code r)) (activation_codes w)"
    by (simp add: comp_def if_distrib cong: if_cong)
  with ok show ?thesis
    unfolding world_ok_def invalidate_user_codes_def by (simp del: map_map)
qed

lemma insert_activation_code_ok:
  assumes "world_ok w" and "insert_activation_code w c = Some w'"
  shows "world_ok w'"
proof -
  from assms(2) have w': "w' = w\<lparr>activation_codes := activation_codes w @ [c\<lparr>used_at := None\<rparr>]\<rparr>"
    and n: "\<not> list_ex (\<lambda>r. ActivationCode.user_id r = ActivationCode.user_id c \<and> code r = code c)
              (activation_codes w)"
    by (simp_all add: insert_activation_code_def split: if_splits)
  from n have "(ActivationCode.user_id c, code c)
      \<notin> (\<lambda>r. (ActivationCode.user_id r, code r)) ` set (activation_codes w)"
    by (simp add: list_ex_iff image_iff) metis
  with assms(1) show ?thesis
    unfolding w' world_ok_def by simp
qed

lemma create_activation_code_ok:
  assumes "world_ok w" and "create_activation_code w c now = (res, w')"
  shows "world_ok w'"
proof -
  have ok1: "world_ok (invalidate_user_codes w (ActivationCode.user_id c) now)"
    using assms(1) by (rule invalidate_user_codes_ok)
  show ?thesis
  proof (cases "insert_activation_code (invalidate_user_codes w (ActivationCode.user_id c) now) c")
    case None
    with assms(2) ok1 show ?thesis
      by (auto simp: create_activation_code_def create_activation_code_between_def Let_def)
  next
    case (Some w2)
    with assms(2) have "w' = w2"
      by (auto simp: create_activation_code_def create_activation_code_between_def Let_def)
    with insert_activation_code_ok [OF ok1 Some] show ?thesis by simp
  qed
qed

lemma send_activation_code_ok:
  "world_ok w \<Longrightarrow> send_activation_code w em cd uid = (res, w') \<Longrightarrow> world_ok w'"
  by (auto simp: send_activation_code_def world_ok_def split: if_splits)

lemma generate_and_send_ok:
  assumes "world_ok w" and "generate_and_send_activation_code w user seed now = (res, w')"
  shows "world_ok w'"
proof -
  obtain r1 w1 where c: "create_activation_code w (generate_for_user (User.user_id user) seed now now) now
      = (r1, w1)" by (cases "create_activation_code w (generate_for_user (User.user_id user) seed now now) now")
  have ok1: "world_ok w1" using assms(1) c by (rule create_activation_code_ok)
  show ?thesis
  proof (cases r1)
    case (Inl e)
    with c assms(2) ok1 show ?thesis by (simp add: generate_and_send_activation_code_def Let_def)
  next
    case (Inr a)
    with c assms(2) have "send_activation_code w1 (email user)
        (code (generate_for_user (User.user_id user) seed now now)) (User.user_id user) = (res, w')"
      by (simp add: generate_and_send_activation_code_def Let_def)
    with ok1 show ?thesis by (rule send_activation_code_ok)
  qed
qed

lemma register_user_ok:
  assumes "world_ok w" and "register_user hashpw w em pw uuid4 salt seed now = (res, w')"
  shows "world_ok w'"
proof (cases "PasswordValidator_validate pw")
  case (Inl e)
  with assms show ?thesis by (simp add: register_user_def)
next
  case (Inr x)
  obtain r1 w1 where c: "create_user hashpw w em pw uuid4 salt now = (r1, w1)"
    by (cases "create_user hashpw w em pw uuid4 salt now")
  have ok1: "world_ok w1" using assms(1) c by (rule create_user_ok)
  show ?thesis
  proof (cases r1)
    case (Inl e)
    with Inr c assms(2) ok1 show ?thesis by (simp add: register_user_def)
  next
    case u: (Inr user)
    obtain r2 w2 where g: "generate_and_send_activation_code w1 user seed now = (r2, w2)"
      by (cases "generate_and_send_activation_code w1 user seed now")
    have ok2: "world_ok w2" using ok1 g by (rule generate_and_send_ok)
    from Inr c u g assms(2) have "w' = w2"
      by (cases r2) (simp_all add: register_user_def)
    with ok2 show ?thesis by simp
  qed
qed

lemma activate_user_ok:
  assumes "world_ok w" and "activate_user checkpw w em pw cd now = (res, w')"
  shows "world_ok w'"
proof (cases "authenticate_user checkpw w em pw now")
  case (Inl e)
  with assms show ?thesis by (simp add: activate_user_def)
next
  case (Inr user)
  show ?thesis
  proof (cases "is_active user \<or> (\<exists>e. verify_activation_code w (User.user_id user) cd now = Inl e)")
    case True
    with Inr assms(2) have "w' = w" by (auto simp: activate_user_def split: if_splits)
    with assms(1) show ?thesis by simp
  next
    case False
    then obtain x where v: "verify_activation_code w (User.user_id user) cd now = Inr x"
      by (cases "verify_activation_code w (User.user_id user) cd now") auto
    obtain r1 w1 where u: "update_user_status w (User.user_id user) ACTIVE (Some now) now = (r1, w1)"
      by (cases "update_user_status w (User.user_id user) ACTIVE (Some now) now")
    have ok1: "world_ok w1" using assms(1) u by (rule update_user_status_world_ok)
    from Inr False v u assms(2)
    have "w' = w1 \<or> w' = mark_code_as_used w1 (User.user_id user) cd now"
      by (cases r1) (simp_all add: activate_user_def)
    with ok1 mark_code_as_used_ok show ?thesis by blast
  qed
qed

lemma resend_activation_code_ok:
  assumes "world_ok w" and "resend_activation_code checkpw w em pw seed now = (res, w')"
  shows "world_ok w'"
proof (cases "authenticate_user checkpw w em pw now")
  case (Inl e)
  with assms show ?thesis by (simp add: resend_activation_code_def)
next
  case (Inr user)
  show ?thesis
  proof (cases "is_active user")
    case True
    with Inr assms show ?thesis by (simp add: resend_activation_code_def)
  next
    case False
    with Inr assms(2) have "generate_and_send_activation_code w user seed now = (res, w')"
      by (simp add: resend_activation_code_def)
    with assms(1) show ?thesis by (rule generate_and_send_ok)
  qed
qed

lemma cleanup_expired_codes_ok:
  assumes "world_ok w" and "cleanup_expired_codes w now = (res, w')"
  shows "world_ok w'"
proof -
  from assms(2) have "w' = w\<lparr>activation_codes := filter (\<lambda>r. \<not> sweepable now r) (activation_codes w)\<rparr>"
    by (simp add: cleanup_expired_codes_eq)
  with assms(1) show ?thesis
    by (simp add: world_ok_def distinct_map_filter)
qed

subsection \<open>Every stored code is text the store accepted\<close>

lemma codes_storable_empty: "codes_storable empty_world"
  by (simp add: codes_storable_def empty_world_def)

lemma codes_storable_cong:
  "activation_codes w' = activation_codes w \<Longrightarrow> codes_storable w \<Longrightarrow> codes_storable w'"
  by (simp add: codes_storable_def)

lemma insert_activation_code_storable:
  assumes "codes_storable w" and "insert_activation_code w c = Some w'"
  shows "codes_storable w'"
  using assms insert_activation_code_Some [OF assms(2)]
  by (simp add: codes_storable_def)

lemma invalidate_user_codes_storable:
  "codes_storable w \<Longrightarrow> codes_storable (invalidate_user_codes w uid now)"
  by (auto simp: codes_storable_def invalidate_user_codes_def list_all_iff)

lemma mark_code_as_used_storable:
  "codes_storable w \<Longrightarrow> codes_storable (mark_code_as_used w uid cd now)"
  by (auto simp: codes_storable_def mark_code_as_used_def list_all_iff)

lemma create_activation_code_between_storable:
  assumes "codes_storable w" and "\<And>x. codes_storable x \<Longrightarrow> codes_storable (other x)"
    and "create_activation_code_between other w c now = (res, w')"
  shows "codes_storable w'"
proof -
  let ?w1 = "other (invalidate_user_codes w (ActivationCode.user_id c) now)"
  have ok1: "codes_storable ?w1"
    using assms(1,2) by (simp add: invalidate_user_codes_storable)
  show ?thesis
  proof (cases "insert_activation_code ?w1 c")
    case None
    with assms(3) ok1 show ?thesis by (auto simp: create_activation_code_between_def Let_def)
  next
    case (Some w2)
    with assms(3) have "w' = w2" by (auto simp: create_activation_code_between_def Let_def)
    with insert_activation_code_storable [OF ok1 Some] show ?thesis by simp
  qed
qed

lemma create_activation_code_storable:
  "codes_storable w \<Longrightarrow> create_activation_code w c now = (res, w') \<Longrightarrow> codes_storable w'"
  unfolding create_activation_code_def
  using create_activation_code_between_storable [of w "\<lambda>x. x"] by simp

lemma send_activation_code_storable:
  "codes_storable w \<Longrightarrow> send_activation_code w em cd uid = (res, w') \<Longrightarrow> codes_storable w'"
  by (auto simp: send_activation_code_def codes_storable_def split: if_splits)

lemma generate_and_send_storable:
  assumes "codes_storable w" and "generate_and_send_activation_code w user seed now = (res, w')"
  shows "codes_storable w'"
proof -
  obtain r1 w1 where c: "create_activation_code w (generate_for_user (User.user_id user) seed now now) now
      = (r1, w1)" by (cases "create_activation_code w (generate_for_user (User.user_id user) seed now now) now")
  have ok1: "codes_storable w1" using assms(1) c by (rule create_activation_code_storable)
  show ?thesis
  proof (cases r1)
    case (Inl e)
    with c assms(2) ok1 show ?thesis by (simp add: generate_and_send_activation_code_def Let_def)
  next
    case (Inr a)
    with c assms(2) have "send_activation_code w1 (email user)
        (code (generate_for_user (User.user_id user) seed now now)) (User.user_id user) = (res, w')"
      by (simp add: generate_and_send_activation_code_def Let_def)
    with ok1 show ?thesis by (rule send_activation_code_storable)
  qed
qed

lemma create_user_codes:
  "create_user hashpw w em pw uuid4 salt now = (res, w') \<Longrightarrow>
     activation_codes w' = activation_codes w"
  by (auto simp: create_user_def create_user_between_def create_user_insert_def insert_user_def
      split: sum.splits option.splits if_splits)

lemma update_user_status_codes:
  "update_user_status w uid st a_at now = (res, w') \<Longrightarrow>
     activation_codes w' = activation_codes w"
  by (auto simp: update_user_status_def Let_def split: sum.splits)

lemma register_user_storable:
  assumes "codes_storable w" and "register_user hashpw w em pw uuid4 salt seed now = (res, w')"
  shows "codes_storable w'"
proof (cases "PasswordValidator_validate pw")
  case (Inl e)
  with assms show ?thesis by (simp add: register_user_def)
next
  case (Inr x)
  obtain r1 w1 where c: "create_user hashpw w em pw uuid4 salt now = (r1, w1)"
    by (cases "create_user hashpw w em pw uuid4 salt now")
  have ok1: "codes_storable w1"
    using create_user_codes [OF c] assms(1) by (rule codes_storable_cong)
  show ?thesis
  proof (cases r1)
    case (Inl e)
    with Inr c assms(2) ok1 show ?thesis by (simp add: register_user_def)
  next
    case u: (Inr user)
    obtain r2 w2 where g: "generate_and_send_activation_code w1 user seed now = (r2, w2)"
      by (cases "generate_and_send_activation_code w1 user seed now")
    have ok2: "codes_storable w2" using ok1 g by (rule generate_and_send_storable)
    from Inr c u g assms(2) have "w' = w2"
      by (cases r2) (simp_all add: register_user_def)
    with ok2 show ?thesis by simp
  qed
qed

lemma activate_user_storable:
  assumes "codes_storable w" and "activate_user checkpw w em pw cd now = (res, w')"
  shows "codes_storable w'"
proof (cases "authenticate_user checkpw w em pw now")
  case (Inl e)
  with assms show ?thesis by (simp add: activate_user_def)
next
  case (Inr user)
  show ?thesis
  proof (cases "is_active user \<or> (\<exists>e. verify_activation_code w (User.user_id user) cd now = Inl e)")
    case True
    with Inr assms(2) have "w' = w" by (auto simp: activate_user_def split: if_splits)
    with assms(1) show ?thesis by simp
  next
    case False
    then obtain x where v: "verify_activation_code w (User.user_id user) cd now = Inr x"
      by (cases "verify_activation_code w (User.user_id user) cd now") auto
    obtain r1 w1 where u: "update_user_status w (User.user_id user) ACTIVE (Some now) now = (r1, w1)"
      by (cases "update_user_status w (User.user_id user) ACTIVE (Some now) now")
    have ok1: "codes_storable w1"
      using update_user_status_codes [OF u] assms(1) by (rule codes_storable_cong)
    from Inr False v u assms(2)
    have "w' = w1 \<or> w' = mark_code_as_used w1 (User.user_id user) cd now"
      by (cases r1) (simp_all add: activate_user_def)
    with ok1 mark_code_as_used_storable show ?thesis by blast
  qed
qed

lemma resend_activation_code_storable:
  assumes "codes_storable w" and "resend_activation_code checkpw w em pw seed now = (res, w')"
  shows "codes_storable w'"
proof (cases "authenticate_user checkpw w em pw now")
  case (Inl e)
  with assms show ?thesis by (simp add: resend_activation_code_def)
next
  case (Inr user)
  show ?thesis
  proof (cases "is_active user")
    case True
    with Inr assms show ?thesis by (simp add: resend_activation_code_def)
  next
    case False
    with Inr assms(2) have "generate_and_send_activation_code w user seed now = (res, w')"
      by (simp add: resend_activation_code_def)
    with assms(1) show ?thesis by (rule generate_and_send_storable)
  qed
qed

lemma cleanup_expired_codes_storable:
  assumes "codes_storable w" and "cleanup_expired_codes w now = (res, w')"
  shows "codes_storable w'"
proof -
  from assms(2) have "w' = w\<lparr>activation_codes := filter (\<lambda>r. \<not> sweepable now r) (activation_codes w)\<rparr>"
    by (simp add: cleanup_expired_codes_eq)
  with assms(1) show ?thesis
    by (simp add: codes_storable_def list_all_iff)
qed

end
